theory Spec2Isabelle
  imports Complex_Main "HOL-Library.Word"
begin

section \<open>Data model (types.ts)\<close>

text \<open>
  The three interfaces of \<^verbatim>\<open>types.ts\<close>. The field \<^verbatim>\<open>id\<close> of a transaction is \<open>tid\<close>,
  the field \<^verbatim>\<open>id\<close> of a customer is \<open>cid\<close> (\<open>id\<close> is the identity function of HOL).
  A JavaScript \<^verbatim>\<open>number\<close> is modelled as an exact rational: rounding, \<^verbatim>\<open>NaN\<close> and the
  infinities of IEEE doubles are outside the model. A JavaScript string is a \<open>string\<close>;
  the model never looks inside one except through the platform functions below.
\<close>

record transaction =
  tid :: string
  productName :: string
  quantity :: rat
  amount :: rat
  isPaid :: bool
  date :: string

record customer =
  cid :: string
  name :: string
  transactions :: "transaction list"

record user =
  username :: string
  passwordHash :: string
  recoveryQuestion :: string
  recoveryAnswerHash :: string

section \<open>Derived totals (CustomerList.tsx, CustomerDetail.tsx)\<close>




section \<open>Platform functions\<close>

text \<open>
  The code calls functions of the browser that are not part of the repository. They are
  parameters of the model, and no theorem assumes anything about them that it does not
  state:
  \<^item> \<open>toLowerCase\<close>, \<open>trim\<close>: \<^verbatim>\<open>String.prototype.toLowerCase\<close>, \<^verbatim>\<open>String.prototype.trim\<close>;
  \<^item> \<open>btoa\<close>: \<^verbatim>\<open>btoa\<close>, \<open>None\<close> where it throws (a code unit above 255);
  \<^item> \<open>atob\<close>: \<^verbatim>\<open>atob\<close>, \<open>None\<close> where it throws (not base64);
  \<^item> \<open>digest\<close>: \<^verbatim>\<open>crypto.subtle.digest('SHA-256', new TextEncoder().encode(input))\<close>;
  \<^item> \<open>toISOString\<close>: \<^verbatim>\<open>new Date(s).toISOString()\<close>, \<open>None\<close> where it throws (an invalid date).
  \<^verbatim>\<open>Date.now()\<close> is an argument \<open>now\<close> of the two operations that read the clock.
  The artificial delay has no effect on the result and is left out; every operation runs
  to its end before the next one starts.
\<close>

record platform =
  toLowerCase :: "string \<Rightarrow> string"
  trim :: "string \<Rightarrow> string"
  btoa :: "string \<Rightarrow> string option"
  atob :: "string \<Rightarrow> string option"
  digest :: "string \<Rightarrow> 8 word list"
  toISOString :: "string \<Rightarrow> string option"

section \<open>Hashing (crypto.ts)\<close>

definition hexDigit :: "nat \<Rightarrow> char" where
  "hexDigit n = ''0123456789abcdef'' ! n"

text \<open>\<^verbatim>\<open>b.toString(16)\<close> for a byte: one digit below 16, two digits otherwise.\<close>

definition toString16 :: "8 word \<Rightarrow> string" where
  "toString16 b =
     (if unat b < 16 then [hexDigit (unat b)]
      else [hexDigit (unat b div 16), hexDigit (unat b mod 16)])"

definition padStart :: "nat \<Rightarrow> char \<Rightarrow> string \<Rightarrow> string" where
  "padStart n c s = replicate (n - length s) c @ s"

definition bufferToHex :: "8 word list \<Rightarrow> string" where
  "bufferToHex buffer = concat (map (\<lambda>b. padStart 2 CHR ''0'' (toString16 b)) buffer)"

definition hashString :: "platform \<Rightarrow> string \<Rightarrow> string" where
  "hashString E input = bufferToHex (digest E input)"

section \<open>The database and its persisted copy (api.ts)\<close>

text \<open>
  \<open>database\<close> is the module-level \<^verbatim>\<open>db\<close>; \<^verbatim>\<open>Record<string, Customer[]>\<close> is a map from
  usernames (a missing key reads \<^verbatim>\<open>undefined\<close>, here \<open>None\<close>). \<open>storage\<close> is the part of
  \<^verbatim>\<open>localStorage\<close> the module writes: the entry \<^verbatim>\<open>debtBookUsers\<close> and the entries
  \<^verbatim>\<open>debtBookData_<username>\<close>. An entry holds the value that \<^verbatim>\<open>JSON.stringify\<close>
  serialises, not its text. A key of \<^verbatim>\<open>db.customers\<close> is present only when the code has
  written it: the properties that a JavaScript object inherits (\<^verbatim>\<open>constructor\<close>,
  \<^verbatim>\<open>__proto__\<close>, ...) are outside the model, and so are a full \<^verbatim>\<open>localStorage\<close> and
  \<^verbatim>\<open>initDb\<close> reading malformed entries. Objects are values: the model has no aliasing
  between the database and what an operation returns.
\<close>

record database =
  users :: "user list"
  customers :: "string \<rightharpoonup> customer list"

record storage =
  debtBookUsers :: "user list option"
  debtBookData :: "string \<rightharpoonup> customer list"

record world =
  db :: database
  localStorage :: storage

text \<open>
  A thrown \<^verbatim>\<open>new Error(message)\<close> is \<open>Error message\<close>. The other three are the exceptions
  the platform raises inside an operation: reading a property of \<^verbatim>\<open>undefined\<close>, \<^verbatim>\<open>btoa\<close>
  on a string it cannot encode, \<^verbatim>\<open>toISOString\<close> on an invalid date.
\<close>

datatype error = Error string | TypeError | InvalidCharacterError | RangeError

abbreviation UserNotFound :: error where
  "UserNotFound \<equiv> Error ''User not found.''"
abbreviation IncorrectPassword :: error where
  "IncorrectPassword \<equiv> Error ''Incorrect password.''"
abbreviation UsernameTaken :: error where
  "UsernameTaken \<equiv> Error ''Username is already taken.''"
abbreviation UsernameTaken_update :: error where
  "UsernameTaken_update \<equiv> Error ''This username is already taken.''"
abbreviation RecoveryAnswerIncorrect :: error where
  "RecoveryAnswerIncorrect \<equiv> Error ''The answer to your security question is incorrect.''"
abbreviation InvalidSession :: error where
  "InvalidSession \<equiv> Error ''Invalid session. Please log in again.''"
abbreviation Unauthorized :: error where
  "Unauthorized \<equiv> Error ''Unauthorized''"
abbreviation CustomerNotFound :: error where
  "CustomerNotFound \<equiv> Error ''Customer not found''"
abbreviation TransactionNotFound :: error where
  "TransactionNotFound \<equiv> Error ''Transaction not found''"

text \<open>\<^verbatim>\<open>Array.prototype.findIndex\<close>; \<open>None\<close> is the result \<^verbatim>\<open>-1\<close>.\<close>

fun findIndex :: "('a \<Rightarrow> bool) \<Rightarrow> 'a list \<Rightarrow> nat option" where
  "findIndex P [] = None"
| "findIndex P (x # xs) =
     (if P x then Some 0 else map_option Suc (findIndex P xs))"

text \<open>\<^verbatim>\<open>Date.now().toString()\<close>: the decimal digits of the clock reading.\<close>

fun toString :: "nat \<Rightarrow> string" where
  "toString n =
     (if n < 10 then [''0123456789'' ! n]
      else toString (n div 10) @ [''0123456789'' ! (n mod 10)])"

declare toString.simps [simp del]

definition persistUsers :: "world \<Rightarrow> world" where
  "persistUsers s =
     s\<lparr>localStorage := (localStorage s)\<lparr>debtBookUsers := Some (users (db s))\<rparr>\<rparr>"

definition persistCustomers :: "string \<Rightarrow> world \<Rightarrow> world" where
  "persistCustomers un s =
     (case customers (db s) un of
        None \<Rightarrow> s
      | Some cs \<Rightarrow>
          s\<lparr>localStorage := (localStorage s)
               \<lparr>debtBookData := (debtBookData (localStorage s))(un \<mapsto> cs)\<rparr>\<rparr>)"

definition removeCustomerData :: "string \<Rightarrow> world \<Rightarrow> world" where
  "removeCustomerData un s =
     s\<lparr>localStorage := (localStorage s)
          \<lparr>debtBookData := (debtBookData (localStorage s))(un := None)\<rparr>\<rparr>"

text \<open>The two in-memory assignments, \<^verbatim>\<open>db.users = ...\<close> and \<^verbatim>\<open>db.customers[un] = ...\<close>.\<close>

definition setUsers :: "user list \<Rightarrow> world \<Rightarrow> world" where
  "setUsers us s = s\<lparr>db := (db s)\<lparr>users := us\<rparr>\<rparr>"

definition setCustomers :: "string \<Rightarrow> customer list option \<Rightarrow> world \<Rightarrow> world" where
  "setCustomers un v s = s\<lparr>db := (db s)\<lparr>customers := (customers (db s))(un := v)\<rparr>\<rparr>"

definition getUsernameFromToken :: "platform \<Rightarrow> world \<Rightarrow> string \<Rightarrow> string option" where
  "getUsernameFromToken E s token =
     (case atob E token of
        None \<Rightarrow> None
      | Some un \<Rightarrow>
          if list_ex (\<lambda>u. username u = un) (users (db s)) then Some un else None)"

text \<open>
  \<^verbatim>\<open>if (!username)\<close> after \<^verbatim>\<open>getUsernameFromToken\<close>: \<^verbatim>\<open>null\<close> and the empty string are
  both falsy. \<open>sessionUser\<close> is the username an operation goes on with, \<open>None\<close> where it
  throws.
\<close>

definition sessionUser :: "platform \<Rightarrow> world \<Rightarrow> string \<Rightarrow> string option" where
  "sessionUser E s token =
     (case getUsernameFromToken E s token of
        None \<Rightarrow> None
      | Some un \<Rightarrow> if un = [] then None else Some un)"

subsection \<open>Auth API\<close>

definition login ::
  "platform \<Rightarrow> string \<Rightarrow> string \<Rightarrow> world \<Rightarrow> (error + string \<times> string) \<times> world" where
  "login E uname password s =
     (case find (\<lambda>u. toLowerCase E (username u) = toLowerCase E uname) (users (db s)) of
        None \<Rightarrow> (Inl UserNotFound, s)
      | Some u \<Rightarrow>
          if passwordHash u \<noteq> hashString E password then (Inl IncorrectPassword, s)
          else (case btoa E (username u) of
                  None \<Rightarrow> (Inl InvalidCharacterError, s)
                | Some token \<Rightarrow> (Inr (token, username u), s)))"

text \<open>
  \<open>register\<close> takes the four fields of \<^verbatim>\<open>userData\<close>. The user is pushed and persisted
  before \<^verbatim>\<open>btoa\<close> runs, so where \<^verbatim>\<open>btoa\<close> throws the new state stays.
\<close>

definition register ::
  "platform \<Rightarrow> string \<Rightarrow> string \<Rightarrow> string \<Rightarrow> string \<Rightarrow> world
     \<Rightarrow> (error + string \<times> string) \<times> world" where
  "register E uname password question answer s =
     (if list_ex (\<lambda>u. toLowerCase E (username u) = toLowerCase E uname) (users (db s))
      then (Inl UsernameTaken, s)
      else
        let newUser = \<lparr> username = uname,
                        passwordHash = hashString E password,
                        recoveryQuestion = question,
                        recoveryAnswerHash = hashString E (toLowerCase E answer) \<rparr>;
            s1 = setUsers (users (db s) @ [newUser]) s;
            s2 = setCustomers uname (Some []) s1;
            s3 = persistUsers s2;
            s4 = persistCustomers uname s3
        in (case btoa E uname of
              None \<Rightarrow> (Inl InvalidCharacterError, s4)
            | Some token \<Rightarrow> (Inr (token, uname), s4)))"

definition findUserForRecovery ::
  "platform \<Rightarrow> string \<Rightarrow> world \<Rightarrow> (error + user) \<times> world" where
  "findUserForRecovery E uname s =
     (case find (\<lambda>u. toLowerCase E (username u) = toLowerCase E uname) (users (db s)) of
        None \<Rightarrow> (Inl UserNotFound, s)
      | Some u \<Rightarrow> (Inr u, s))"

definition verifyRecoveryAnswer ::
  "platform \<Rightarrow> string \<Rightarrow> string \<Rightarrow> world \<Rightarrow> (error + bool) \<times> world" where
  "verifyRecoveryAnswer E uname answer s =
     (let answerHash = hashString E (toLowerCase E answer)
      in case find (\<lambda>u. toLowerCase E (username u) = toLowerCase E uname) (users (db s)) of
           None \<Rightarrow> (Inl RecoveryAnswerIncorrect, s)
         | Some u \<Rightarrow>
             if recoveryAnswerHash u \<noteq> answerHash then (Inl RecoveryAnswerIncorrect, s)
             else (Inr True, s))"

definition resetPassword ::
  "platform \<Rightarrow> string \<Rightarrow> string \<Rightarrow> world \<Rightarrow> (error + unit) \<times> world" where
  "resetPassword E uname newPassword s =
     (case findIndex (\<lambda>u. toLowerCase E (username u) = toLowerCase E uname) (users (db s)) of
        None \<Rightarrow> (Inl UserNotFound, s)
      | Some userIndex \<Rightarrow>
          let us = users (db s);
              s1 = setUsers (us[userIndex := (us ! userIndex)
                                  \<lparr>passwordHash := hashString E newPassword\<rparr>]) s
          in (Inr (), persistUsers s1))"

text \<open>
  \<open>updateUsername\<close>: \<^verbatim>\<open>findIndex\<close> cannot miss after \<open>getUsernameFromToken\<close> found the
  name; the branch is the \<^verbatim>\<open>TypeError\<close> that \<^verbatim>\<open>db.users[-1].username = ...\<close> would raise.
  \<^verbatim>\<open>db.customers[oldUsername] || []\<close> is the old list, or \<^verbatim>\<open>[]\<close> when the key is missing.
\<close>

definition updateUsername ::
  "platform \<Rightarrow> string \<Rightarrow> string \<Rightarrow> world \<Rightarrow> (error + string \<times> string) \<times> world" where
  "updateUsername E token newUsername s =
     (case sessionUser E s token of
        None \<Rightarrow> (Inl InvalidSession, s)
      | Some oldUsername \<Rightarrow>
          if list_ex (\<lambda>u. toLowerCase E (username u) = toLowerCase E newUsername) (users (db s))
          then (Inl UsernameTaken_update, s)
          else (case findIndex (\<lambda>u. username u = oldUsername) (users (db s)) of
                  None \<Rightarrow> (Inl TypeError, s)
                | Some userIndex \<Rightarrow>
                    let us = users (db s);
                        s1 = setUsers (us[userIndex := (us ! userIndex)\<lparr>username := newUsername\<rparr>]) s;
                        s2 = setCustomers newUsername
                               (Some (case customers (db s1) oldUsername of
                                        None \<Rightarrow> [] | Some cs \<Rightarrow> cs)) s1;
                        s3 = setCustomers oldUsername None s2;
                        s4 = persistUsers s3;
                        s5 = persistCustomers newUsername s4;
                        s6 = removeCustomerData oldUsername s5
                    in (case btoa E newUsername of
                          None \<Rightarrow> (Inl InvalidCharacterError, s6)
                        | Some newToken \<Rightarrow> (Inr (newToken, newUsername), s6))))"

subsection \<open>Customer data API\<close>

definition getCustomers ::
  "platform \<Rightarrow> string \<Rightarrow> world \<Rightarrow> (error + customer list) \<times> world" where
  "getCustomers E token s =
     (case sessionUser E s token of
        None \<Rightarrow> (Inl Unauthorized, s)
      | Some un \<Rightarrow>
          (Inr (case customers (db s) un of None \<Rightarrow> [] | Some cs \<Rightarrow> cs), s))"

definition addCustomer ::
  "platform \<Rightarrow> nat \<Rightarrow> string \<Rightarrow> string \<Rightarrow> world \<Rightarrow> (error + customer) \<times> world" where
  "addCustomer E now token nm s =
     (case sessionUser E s token of
        None \<Rightarrow> (Inl Unauthorized, s)
      | Some un \<Rightarrow>
          let newCustomer = \<lparr> cid = toString now, name = nm, transactions = [] \<rparr>
          in (case customers (db s) un of
                None \<Rightarrow> (Inl TypeError, s)
              | Some cs \<Rightarrow>
                  (Inr newCustomer,
                   persistCustomers un (setCustomers un (Some (cs @ [newCustomer])) s))))"

definition renameCustomer ::
  "platform \<Rightarrow> string \<Rightarrow> string \<Rightarrow> string \<Rightarrow> world \<Rightarrow> (error + customer) \<times> world" where
  "renameCustomer E token customerId newName s =
     (case sessionUser E s token of
        None \<Rightarrow> (Inl Unauthorized, s)
      | Some un \<Rightarrow>
          (case customers (db s) un of
             None \<Rightarrow> (Inl TypeError, s)
           | Some cs \<Rightarrow>
               (case findIndex (\<lambda>c. cid c = customerId) cs of
                  None \<Rightarrow> (Inl CustomerNotFound, s)
                | Some customerIndex \<Rightarrow>
                    let cs' = cs[customerIndex := (cs ! customerIndex)\<lparr>name := newName\<rparr>]
                    in (Inr (cs' ! customerIndex),
                        persistCustomers un (setCustomers un (Some cs') s)))))"

definition deleteCustomer ::
  "platform \<Rightarrow> string \<Rightarrow> string \<Rightarrow> world \<Rightarrow> (error + unit) \<times> world" where
  "deleteCustomer E token customerId s =
     (case sessionUser E s token of
        None \<Rightarrow> (Inl Unauthorized, s)
      | Some un \<Rightarrow>
          (case customers (db s) un of
             None \<Rightarrow> (Inl TypeError, s)
           | Some cs \<Rightarrow>
               (Inr (),
                persistCustomers un
                  (setCustomers un (Some (filter (\<lambda>c. cid c \<noteq> customerId) cs)) s))))"

record txData =
  txProductName :: string
  txQuantity :: rat
  txPrice :: rat
  txDate :: string

definition addTransaction ::
  "platform \<Rightarrow> nat \<Rightarrow> string \<Rightarrow> string \<Rightarrow> txData \<Rightarrow> world
     \<Rightarrow> (error + transaction) \<times> world" where
  "addTransaction E now token customerId d s =
     (case sessionUser E s token of
        None \<Rightarrow> (Inl Unauthorized, s)
      | Some un \<Rightarrow>
          (case customers (db s) un of
             None \<Rightarrow> (Inl TypeError, s)
           | Some cs \<Rightarrow>
               (case findIndex (\<lambda>c. cid c = customerId) cs of
                  None \<Rightarrow> (Inl CustomerNotFound, s)
                | Some customerIndex \<Rightarrow>
                    let c = cs ! customerIndex
                    in (case toISOString E (txDate d @ ''T00:00:00'') of
                          None \<Rightarrow> (Inl RangeError, s)
                        | Some isoDate \<Rightarrow>
                            let newTransaction =
                                  \<lparr> tid = toString now,
                                    productName = txProductName d,
                                    quantity = txQuantity d,
                                    amount = txPrice d,
                                    isPaid = False,
                                    date = isoDate \<rparr>;
                                updatedTransactions = newTransaction # transactions c;
                                cs' = cs[customerIndex := c\<lparr>transactions := updatedTransactions\<rparr>]
                            in (Inr newTransaction,
                                persistCustomers un (setCustomers un (Some cs') s))))))"

text \<open>
  The \<^verbatim>\<open>map\<close> callback of \<open>toggleTransactionPaid\<close> assigns the outer variable
  \<^verbatim>\<open>updatedTransaction\<close> at every match; \<open>toggleMap\<close> threads that variable through the
  list, so that it ends as the last match.
\<close>

fun toggleMap ::
  "string \<Rightarrow> transaction list \<Rightarrow> transaction option \<Rightarrow> transaction list \<times> transaction option" where
  "toggleMap transactionId [] updatedTransaction = ([], updatedTransaction)"
| "toggleMap transactionId (t # ts) updatedTransaction =
     (if tid t = transactionId
      then let t' = t\<lparr>isPaid := \<not> isPaid t\<rparr>;
               (rest, final) = toggleMap transactionId ts (Some t')
           in (t' # rest, final)
      else let (rest, final) = toggleMap transactionId ts updatedTransaction
           in (t # rest, final))"

definition toggleTransactionPaid ::
  "platform \<Rightarrow> string \<Rightarrow> string \<Rightarrow> string \<Rightarrow> world \<Rightarrow> (error + transaction) \<times> world" where
  "toggleTransactionPaid E token customerId transactionId s =
     (case sessionUser E s token of
        None \<Rightarrow> (Inl Unauthorized, s)
      | Some un \<Rightarrow>
          (case customers (db s) un of
             None \<Rightarrow> (Inl TypeError, s)
           | Some cs \<Rightarrow>
               (case findIndex (\<lambda>c. cid c = customerId) cs of
                  None \<Rightarrow> (Inl CustomerNotFound, s)
                | Some customerIndex \<Rightarrow>
                    let c = cs ! customerIndex;
                        (updatedTransactions, updatedTransaction) =
                           toggleMap transactionId (transactions c) None
                    in (case updatedTransaction of
                          None \<Rightarrow> (Inl TransactionNotFound, s)
                        | Some t' \<Rightarrow>
                            let cs' = cs[customerIndex := c\<lparr>transactions := updatedTransactions\<rparr>]
                            in (Inr t', persistCustomers un (setCustomers un (Some cs') s))))))"

definition deleteTransaction ::
  "platform \<Rightarrow> string \<Rightarrow> string \<Rightarrow> string \<Rightarrow> world \<Rightarrow> (error + unit) \<times> world" where
  "deleteTransaction E token customerId transactionId s =
     (case sessionUser E s token of
        None \<Rightarrow> (Inl Unauthorized, s)
      | Some un \<Rightarrow>
          (case customers (db s) un of
             None \<Rightarrow> (Inl TypeError, s)
           | Some cs \<Rightarrow>
               (case findIndex (\<lambda>c. cid c = customerId) cs of
                  None \<Rightarrow> (Inl CustomerNotFound, s)
                | Some customerIndex \<Rightarrow>
                    let c = cs ! customerIndex
                    in (case findIndex (\<lambda>t. tid t = transactionId) (transactions c) of
                          None \<Rightarrow> (Inl TransactionNotFound, s)
                        | Some transactionIndex \<Rightarrow>
                            let updatedTransactions =
                                  filter (\<lambda>t. tid t \<noteq> transactionId) (transactions c);
                                cs' = cs[customerIndex := c\<lparr>transactions := updatedTransactions\<rparr>]
                            in (Inr (), persistCustomers un (setCustomers un (Some cs') s))))))"

section \<open>The profile form (App.tsx)\<close>

text \<open>
  The part of the component state that \<^verbatim>\<open>handleUpdateUsername\<close> reads and writes:
  the two state variables \<^verbatim>\<open>authToken\<close> and \<^verbatim>\<open>currentUser\<close>, the flag
  \<^verbatim>\<open>isEditingProfile\<close>, and the \<^verbatim>\<open>authToken\<close> entry of \<^verbatim>\<open>sessionStorage\<close>.
\<close>

record app =
  authToken :: "string option"
  currentUser :: "string option"
  isEditingProfile :: bool
  sessionAuthToken :: "string option"

text \<open>
  \<^verbatim>\<open>error.message\<close>. For the three platform exceptions the wording is the browser's;
  the model puts the name of the exception there.
\<close>

fun message :: "error \<Rightarrow> string" where
  "message (Error m) = m"
| "message TypeError = ''TypeError''"
| "message InvalidCharacterError = ''InvalidCharacterError''"
| "message RangeError = ''RangeError''"

definition handleLoginSuccess :: "string \<Rightarrow> string \<Rightarrow> app \<Rightarrow> app" where
  "handleLoginSuccess token uname a =
     a\<lparr>sessionAuthToken := Some token, authToken := Some token, currentUser := Some uname\<rparr>"

text \<open>
  The result is \<^verbatim>\<open>{ success, error? }\<close>. \<^verbatim>\<open>!authToken\<close> holds for \<^verbatim>\<open>null\<close> and for the empty
  string; \<^verbatim>\<open>currentUser?.toLowerCase()\<close> is \<^verbatim>\<open>undefined\<close> for a \<^verbatim>\<open>null\<close> user and then equal
  to no string.
\<close>

definition handleUpdateUsername ::
  "platform \<Rightarrow> string \<Rightarrow> app \<times> world \<Rightarrow> (bool \<times> string option) \<times> app \<times> world" where
  "handleUpdateUsername E newUsername st =
     (let a = fst st; s = snd st
      in case authToken a of
           None \<Rightarrow> ((False, Some ''Not authenticated''), a, s)
         | Some tok \<Rightarrow>
             if tok = [] then ((False, Some ''Not authenticated''), a, s)
             else
               let trimmedUsername = trim E newUsername
               in if Some (toLowerCase E trimmedUsername)
                       = map_option (toLowerCase E) (currentUser a)
                  then ((True, None), a\<lparr>isEditingProfile := False\<rparr>, s)
                  else if trimmedUsername = []
                  then ((False, Some ''Username cannot be empty.''), a, s)
                  else (case updateUsername E tok trimmedUsername s of
                          (Inr (newToken, updatedUsername), s') \<Rightarrow>
                            ((True, None),
                             (handleLoginSuccess newToken updatedUsername a)
                               \<lparr>isEditingProfile := False\<rparr>, s')
                        | (Inl e, s') \<Rightarrow> ((False, Some (message e)), a, s')))"

section \<open>Sequences of calls\<close>

text \<open>
  A call of one of the thirteen operations with its arguments, the state it leaves
  behind, and the state after a sequence of calls. \<open>emptyWorld\<close> is the store of a
  browser that has never run the application: \<^verbatim>\<open>initDb\<close> finds nothing in \<^verbatim>\<open>localStorage\<close>.
\<close>

datatype call =
    Login string string
  | Register string string string string
  | FindUserForRecovery string
  | VerifyRecoveryAnswer string string
  | ResetPassword string string
  | UpdateUsername string string
  | GetCustomers string
  | AddCustomer nat string string
  | RenameCustomer string string string
  | DeleteCustomer string string
  | AddTransaction nat string string txData
  | ToggleTransactionPaid string string string
  | DeleteTransaction string string string

fun step :: "platform \<Rightarrow> call \<Rightarrow> world \<Rightarrow> world" where
  "step E (Login u p) s = snd (login E u p s)"
| "step E (Register u p q a) s = snd (register E u p q a s)"
| "step E (FindUserForRecovery u) s = snd (findUserForRecovery E u s)"
| "step E (VerifyRecoveryAnswer u a) s = snd (verifyRecoveryAnswer E u a s)"
| "step E (ResetPassword u p) s = snd (resetPassword E u p s)"
| "step E (UpdateUsername t u) s = snd (updateUsername E t u s)"
| "step E (GetCustomers t) s = snd (getCustomers E t s)"
| "step E (AddCustomer now t n) s = snd (addCustomer E now t n s)"
| "step E (RenameCustomer t c n) s = snd (renameCustomer E t c n s)"
| "step E (DeleteCustomer t c) s = snd (deleteCustomer E t c s)"
| "step E (AddTransaction now t c d) s = snd (addTransaction E now t c d s)"
| "step E (ToggleTransactionPaid t c x) s = snd (toggleTransactionPaid E t c x s)"
| "step E (DeleteTransaction t c x) s = snd (deleteTransaction E t c x s)"

fun run :: "platform \<Rightarrow> call list \<Rightarrow> world \<Rightarrow> world" where
  "run E [] s = s"
| "run E (c # cs) s = run E cs (step E c s)"

definition emptyWorld :: world where
  "emptyWorld = \<lparr> db = \<lparr> users = [], customers = Map.empty \<rparr>,
                   localStorage = \<lparr> debtBookUsers = None, debtBookData = Map.empty \<rparr> \<rparr>"

text \<open>
  \<open>clockFresh\<close>: the call is not an \<open>addTransaction\<close> that reads a clock value whose
  decimal string is already an id in the sequence of the customer it adds to.
  \<open>clocksFresh\<close>: every call of the sequence is, in the state it runs in.
\<close>

fun clockFresh :: "platform \<Rightarrow> call \<Rightarrow> world \<Rightarrow> bool" where
  "clockFresh E (AddTransaction now t c d) s =
     (case sessionUser E s t of
        None \<Rightarrow> True
      | Some un \<Rightarrow>
          (case customers (db s) un of
             None \<Rightarrow> True
           | Some cs \<Rightarrow>
               (case findIndex (\<lambda>x. cid x = c) cs of
                  None \<Rightarrow> True
                | Some i \<Rightarrow> toString now \<notin> set (map tid (transactions (cs ! i))))))"
| "clockFresh E _ s = True"

fun clocksFresh :: "platform \<Rightarrow> call list \<Rightarrow> world \<Rightarrow> bool" where
  "clocksFresh E [] s = True"
| "clocksFresh E (c # cs) s = (clockFresh E c s \<and> clocksFresh E cs (step E c s))"

text \<open>Transaction ids are unique within every customer of every user.\<close>

abbreviation txIdsUnique :: "world \<Rightarrow> bool" where
  "txIdsUnique s \<equiv>
     \<forall>un cs. customers (db s) un = Some cs \<longrightarrow>
       (\<forall>c\<in>set cs. distinct (map tid (transactions c)))"

section \<open>A concrete platform for the examples\<close>

text \<open>
  The examples below run the operations on a platform whose strings are sequences of
  Latin-1 code units, on which \<^verbatim>\<open>btoa\<close> never throws. \<open>btoa\<close> and \<open>atob\<close> are base64 as
  the browser computes it (\<open>atob\<close> is the forgiving decoder: ASCII whitespace is dropped,
  padding is optional). \<open>toLowerCase\<close> lowers the letters of Latin-1. The digest is a
  stand-in for SHA-256 (the code units of the input), and \<open>toISOString\<close> is the
  conversion in a UTC time zone, accepting days 01 to 28 only.
\<close>

definition b64chars :: string where
  "b64chars = ''ABCDEFGHIJKLMNOPQRSTUVWXYZabcdefghijklmnopqrstuvwxyz0123456789+/''"

fun b64enc :: "nat list \<Rightarrow> string" where
  "b64enc (a # b # c # r) =
     [b64chars ! (a div 4), b64chars ! ((a mod 4) * 16 + b div 16),
      b64chars ! ((b mod 16) * 4 + c div 64), b64chars ! (c mod 64)] @ b64enc r"
| "b64enc [a, b] =
     [b64chars ! (a div 4), b64chars ! ((a mod 4) * 16 + b div 16),
      b64chars ! ((b mod 16) * 4), CHR ''='']"
| "b64enc [a] =
     [b64chars ! (a div 4), b64chars ! ((a mod 4) * 16), CHR ''='', CHR ''='']"
| "b64enc [] = []"

definition base64_btoa :: "string \<Rightarrow> string option" where
  "base64_btoa s = Some (b64enc (map of_char s))"

definition b64val :: "char \<Rightarrow> nat option" where
  "b64val c = map_of (zip b64chars [0..<64]) c"

fun b64dec :: "nat list \<Rightarrow> nat list" where
  "b64dec (a # b # c # d # r) =
     [a * 4 + b div 16, (b mod 16) * 16 + c div 4, (c mod 4) * 64 + d] @ b64dec r"
| "b64dec [a, b, c] = [a * 4 + b div 16, (b mod 16) * 16 + c div 4]"
| "b64dec [a, b] = [a * 4 + b div 16]"
| "b64dec [a] = []"
| "b64dec [] = []"

definition asciiWhitespace :: "char \<Rightarrow> bool" where
  "asciiWhitespace c = (c \<in> set [CHR 0x09, CHR 0x0A, CHR 0x0C, CHR 0x0D, CHR 0x20])"

definition stripPadding :: "string \<Rightarrow> string" where
  "stripPadding d =
     (if length d mod 4 = 0
      then (if 2 \<le> length d \<and> drop (length d - 2) d = ''==''
            then take (length d - 2) d
            else if 1 \<le> length d \<and> drop (length d - 1) d = ''=''
            then take (length d - 1) d
            else d)
      else d)"

definition base64_atob :: "string \<Rightarrow> string option" where
  "base64_atob token =
     (let d = stripPadding (filter (\<lambda>c. \<not> asciiWhitespace c) token)
      in if length d mod 4 = 1 then None
         else map_option (\<lambda>vs. map char_of (b64dec vs)) (those (map b64val d)))"

definition latin1Lower :: "string \<Rightarrow> string" where
  "latin1Lower s =
     map (\<lambda>c. let n = (of_char c :: nat)
               in if (65 \<le> n \<and> n \<le> 90) \<or> (192 \<le> n \<and> n \<le> 222 \<and> n \<noteq> 215)
                  then char_of (n + 32) else c) s"

definition latin1Space :: "char \<Rightarrow> bool" where
  "latin1Space c = (c \<in> set [CHR 0x09, CHR 0x0A, CHR 0x0B, CHR 0x0C, CHR 0x0D, CHR 0x20, CHR 0xA0])"

definition latin1Trim :: "string \<Rightarrow> string" where
  "latin1Trim s = rev (dropWhile latin1Space (rev (dropWhile latin1Space s)))"

definition isDigit :: "char \<Rightarrow> bool" where
  "isDigit c = (c \<in> set ''0123456789'')"

definition utcISOString :: "string \<Rightarrow> string option" where
  "utcISOString s =
     (case s of
        [y1, y2, y3, y4, h1, m1, m2, h2, d1, d2, t, a1, a2, c1, b1, b2, c2, e1, e2] \<Rightarrow>
          if list_all isDigit [y1, y2, y3, y4, m1, m2, d1, d2]
             \<and> [h1, h2] = ''--''
             \<and> [t, a1, a2, c1, b1, b2, c2, e1, e2] = ''T00:00:00''
             \<and> [m1, m2] \<in> set [''01'', ''02'', ''03'', ''04'', ''05'', ''06'',
                                 ''07'', ''08'', ''09'', ''10'', ''11'', ''12'']
             \<and> [d1] \<in> set [''0'', ''1'', ''2''] \<and> [d1, d2] \<noteq> ''00'' \<and> [d1, d2] \<noteq> ''29''
          then Some (s @ ''.000Z'')
          else None
      | _ \<Rightarrow> None)"

definition testPlatform :: platform where
  "testPlatform =
     \<lparr> toLowerCase = latin1Lower,
       trim = latin1Trim,
       btoa = base64_btoa,
       atob = base64_atob,
       digest = (\<lambda>s. map of_char s),
       toISOString = utcISOString \<rparr>"

section \<open>Concrete states for the examples\<close>

text \<open>
  One user, \<open>Alice\<close> (password \<open>pw1\<close>, recovery answer \<open>Rex\<close>, stored lowercased), with one
  customer holding one paid transaction. Her token is \<^verbatim>\<open>btoa("Alice")\<close>.
\<close>

definition rice :: transaction where
  "rice = \<lparr> tid = ''1700000000001'', productName = ''rice'', quantity = 1, amount = 30,
             isPaid = True, date = ''2024-01-05T00:00:00.000Z'' \<rparr>"

definition ann :: customer where
  "ann = \<lparr> cid = ''1700000000000'', name = ''Ann'', transactions = [rice] \<rparr>"

definition alice :: user where
  "alice = \<lparr> username = ''Alice'', passwordHash = hashString testPlatform ''pw1'',
              recoveryQuestion = ''First pet?'',
              recoveryAnswerHash = hashString testPlatform ''rex'' \<rparr>"

definition aliceToken :: string where
  "aliceToken = ''QWxpY2U=''"

definition world1 :: world where
  "world1 = \<lparr> db = \<lparr> users = [alice], customers = [''Alice'' \<mapsto> [ann]] \<rparr>,
               localStorage = \<lparr> debtBookUsers = Some [alice],
                                debtBookData = [''Alice'' \<mapsto> [ann]] \<rparr> \<rparr>"

text \<open>The profile form as \<open>Alice\<close> sees it while she edits her name.\<close>

definition app1 :: app where
  "app1 = \<lparr> authToken = Some aliceToken, currentUser = Some ''Alice'',
             isEditingProfile = True, sessionAuthToken = Some aliceToken \<rparr>"

definition tea2 :: transaction where
  "tea2 = \<lparr> tid = ''1700000000002'', productName = ''tea'', quantity = 2, amount = 50,
             isPaid = False, date = ''2024-01-06T00:00:00.000Z'' \<rparr>"

definition tea :: txData where
  "tea = \<lparr> txProductName = ''tea'', txQuantity = 2, txPrice = 50, txDate = ''2024-01-06'' \<rparr>"

text \<open>
  \<open>history\<close> is a sequence of calls that produces \<open>world1\<close> from the empty store;
  \<open>nextCalls\<close> goes on from there with a later clock value; \<open>sameMillisecond\<close> is two
  \<open>addTransaction\<close> calls that read the same clock value.
\<close>

definition riceData :: txData where
  "riceData = \<lparr> txProductName = ''rice'', txQuantity = 1, txPrice = 30, txDate = ''2024-01-05'' \<rparr>"

definition history :: "call list" where
  "history =
     [Register ''Alice'' ''pw1'' ''First pet?'' ''Rex'',
      AddCustomer 1700000000000 aliceToken ''Ann'',
      AddTransaction 1700000000001 aliceToken ''1700000000000'' riceData,
      ToggleTransactionPaid aliceToken ''1700000000000'' ''1700000000001'']"

definition nextCalls :: "call list" where
  "nextCalls =
     [AddTransaction 1700000000002 aliceToken ''1700000000000'' tea,
      ToggleTransactionPaid aliceToken ''1700000000000'' ''1700000000002'']"

definition sameMillisecond :: "call list" where
  "sameMillisecond =
     [AddTransaction 1700000000002 aliceToken ''1700000000000'' tea,
      AddTransaction 1700000000002 aliceToken ''1700000000000'' tea]"

chapter \<open>Lemmas\<close>

section \<open>Totals\<close>



section \<open>Basic facts about the store\<close>

lemma findIndex_Some:
  "findIndex P xs = Some i \<Longrightarrow> i < length xs \<and> P (xs ! i) \<and> (\<forall>j<i. \<not> P (xs ! j))"
proof (induction xs arbitrary: i)
  case Nil
  then show ?case by simp
next
  case (Cons x xs)
  show ?case
  proof (cases "P x")
    case True
    with Cons.prems show ?thesis by simp
  next
    case False
    with Cons.prems obtain k where k: "findIndex P xs = Some k" "i = Suc k"
      by auto
    from Cons.IH [OF k(1)] False k(2) show ?thesis
      by (auto simp: nth_Cons split: nat.splits)
  qed
qed

lemma findIndex_None: "findIndex P xs = None \<longleftrightarrow> (\<forall>x\<in>set xs. \<not> P x)"
  by (induction xs) auto

lemma findIndex_ex: "x \<in> set xs \<Longrightarrow> P x \<Longrightarrow> \<exists>i. findIndex P xs = Some i"
  using findIndex_None [of P xs] by (cases "findIndex P xs") auto

lemma db_persistUsers [simp]: "db (persistUsers s) = db s"
  by (simp add: persistUsers_def)

lemma db_persistCustomers [simp]: "db (persistCustomers un s) = db s"
  by (simp add: persistCustomers_def split: option.splits)

lemma db_removeCustomerData [simp]: "db (removeCustomerData un s) = db s"
  by (simp add: removeCustomerData_def)

lemma users_setCustomers [simp]: "users (db (setCustomers un v s)) = users (db s)"
  by (simp add: setCustomers_def)

lemma customers_setCustomers [simp]:
  "customers (db (setCustomers un v s)) = (customers (db s))(un := v)"
  by (simp add: setCustomers_def)

lemma users_setUsers [simp]: "users (db (setUsers us s)) = us"
  by (simp add: setUsers_def)

lemma customers_setUsers [simp]: "customers (db (setUsers us s)) = customers (db s)"
  by (simp add: setUsers_def)

lemma localStorage_setCustomers [simp]: "localStorage (setCustomers un v s) = localStorage s"
  by (simp add: setCustomers_def)

lemma localStorage_setUsers [simp]: "localStorage (setUsers us s) = localStorage s"
  by (simp add: setUsers_def)

lemma data_persistCustomers:
  "customers (db s) un = Some cs \<Longrightarrow>
     debtBookData (localStorage (persistCustomers un s)) = (debtBookData (localStorage s))(un \<mapsto> cs)"
  by (simp add: persistCustomers_def)

lemma getUsernameFromToken_users:
  "users (db s') = users (db s) \<Longrightarrow> getUsernameFromToken E s' token = getUsernameFromToken E s token"
  by (simp add: getUsernameFromToken_def split: option.splits)

lemma sessionUser_users:
  "users (db s') = users (db s) \<Longrightarrow> sessionUser E s' token = sessionUser E s token"
  using getUsernameFromToken_users [of s' s E token] by (simp add: sessionUser_def)

lemma sessionUser_stored [simp]:
  "sessionUser E (persistCustomers un (setCustomers un' v s)) token = sessionUser E s token"
  by (rule sessionUser_users) simp

section \<open>Adding a transaction\<close>

lemma toggleMap_fst:
  "fst (toggleMap x ts u) = map (\<lambda>t. if tid t = x then t\<lparr>isPaid := \<not> isPaid t\<rparr> else t) ts"
  by (induction ts arbitrary: u) (simp_all add: Let_def split_beta)

lemma toggleMap_snd_absent:
  "x \<notin> tid ` set ts \<Longrightarrow> snd (toggleMap x ts u) = u"
  by (induction ts arbitrary: u) (auto simp: Let_def split_beta)

lemma toggleMap_snd_present:
  "x \<in> tid ` set ts \<Longrightarrow>
     \<exists>t\<in>set ts. tid t = x \<and> snd (toggleMap x ts u) = Some (t\<lparr>isPaid := \<not> isPaid t\<rparr>)"
proof (induction ts arbitrary: u)
  case Nil
  then show ?case by simp
next
  case (Cons a ts)
  show ?case
  proof (cases "x \<in> tid ` set ts")
    case True
    from Cons.IH [OF True] show ?thesis
      by (auto simp: Let_def split_beta)
  next
    case False
    with Cons.prems have "tid a = x" by auto
    with False show ?thesis
      by (simp add: Let_def split_beta toggleMap_snd_absent)
  qed
qed

lemma toggle_twice_list:
  "map (\<lambda>t. if tid t = x then t\<lparr>isPaid := \<not> isPaid t\<rparr> else t)
     (map (\<lambda>t. if tid t = x then t\<lparr>isPaid := \<not> isPaid t\<rparr> else t) ts) = ts"
  by (induction ts) simp_all

lemma toggle_ids:
  "map tid (map (\<lambda>t. if tid t = x then t\<lparr>isPaid := \<not> isPaid t\<rparr> else t) ts) = map tid ts"
  by (induction ts) simp_all

lemma findIndex_update_cid:
  "findIndex (\<lambda>c. cid c = k) cs = Some i \<Longrightarrow> cid c' = k \<Longrightarrow>
     findIndex (\<lambda>c. cid c = k) (cs[i := c']) = Some i"
proof (induction cs arbitrary: i)
  case Nil
  then show ?case by simp
next
  case (Cons a cs)
  then show ?case
    by (cases i) (auto split: if_splits)
qed

lemma persist_restores:
  fixes s s' :: world
  assumes "customers (db s) un = Some cs" and "debtBookData (localStorage s) un = Some cs"
    and "db s' = db s"
    and "localStorage s' = (localStorage s)\<lparr>debtBookData := (debtBookData (localStorage s))(un := v)\<rparr>"
  shows "persistCustomers un s' = s"
proof -
  have "(debtBookData (localStorage s))(un \<mapsto> cs) = debtBookData (localStorage s)"
    using assms(2) by (simp add: map_upd_triv)
  then show ?thesis
    using assms by (simp add: persistCustomers_def)
qed

lemma toggle_run:
  assumes "sessionUser E s token = Some un"
    and "customers (db s) un = Some cs"
    and "findIndex (\<lambda>c. cid c = customerId) cs = Some i"
    and "toggleMap transactionId (transactions (cs ! i)) None = (ts', Some t')"
  shows "toggleTransactionPaid E token customerId transactionId s
           = (Inr t', persistCustomers un
                (setCustomers un (Some (cs[i := (cs ! i)\<lparr>transactions := ts'\<rparr>])) s))"
  using assms by (simp add: toggleTransactionPaid_def Let_def)

section \<open>Deleting a customer\<close>

lemma findIndex_filtered:
  "findIndex (\<lambda>c. cid c = k) (filter (\<lambda>c. cid c \<noteq> k) cs) = None"
  by (simp add: findIndex_None)

section \<open>Errors leave the state alone\<close>

lemma login_atomic: "fst (login E uname password s) = Inl (Error m) \<Longrightarrow> snd (login E uname password s) = s"
  by (auto simp: login_def split: option.splits if_splits)

lemma register_atomic:
  "fst (register E uname password question answer s) = Inl (Error m)
     \<Longrightarrow> snd (register E uname password question answer s) = s"
  by (auto simp: register_def Let_def split: option.splits if_splits)

lemma findUserForRecovery_atomic:
  "fst (findUserForRecovery E uname s) = Inl (Error m) \<Longrightarrow> snd (findUserForRecovery E uname s) = s"
  by (auto simp: findUserForRecovery_def split: option.splits)

lemma verifyRecoveryAnswer_atomic:
  "fst (verifyRecoveryAnswer E uname answer s) = Inl (Error m)
     \<Longrightarrow> snd (verifyRecoveryAnswer E uname answer s) = s"
  by (auto simp: verifyRecoveryAnswer_def Let_def split: option.splits if_splits)

lemma resetPassword_atomic:
  "fst (resetPassword E uname newPassword s) = Inl (Error m)
     \<Longrightarrow> snd (resetPassword E uname newPassword s) = s"
  by (auto simp: resetPassword_def Let_def split: option.splits)

lemma updateUsername_atomic:
  "fst (updateUsername E token newUsername s) = Inl (Error m)
     \<Longrightarrow> snd (updateUsername E token newUsername s) = s"
  by (auto simp: updateUsername_def Let_def split: option.splits if_splits)

lemma getCustomers_atomic:
  "fst (getCustomers E token s) = Inl (Error m) \<Longrightarrow> snd (getCustomers E token s) = s"
  by (auto simp: getCustomers_def split: option.splits)

lemma addCustomer_atomic:
  "fst (addCustomer E now token nm s) = Inl (Error m) \<Longrightarrow> snd (addCustomer E now token nm s) = s"
  by (auto simp: addCustomer_def Let_def split: option.splits)

lemma renameCustomer_atomic:
  "fst (renameCustomer E token customerId newName s) = Inl (Error m)
     \<Longrightarrow> snd (renameCustomer E token customerId newName s) = s"
  by (auto simp: renameCustomer_def Let_def split: option.splits)

lemma deleteCustomer_atomic:
  "fst (deleteCustomer E token customerId s) = Inl (Error m)
     \<Longrightarrow> snd (deleteCustomer E token customerId s) = s"
  by (auto simp: deleteCustomer_def split: option.splits)

lemma addTransaction_atomic:
  "fst (addTransaction E now token customerId d s) = Inl (Error m)
     \<Longrightarrow> snd (addTransaction E now token customerId d s) = s"
  by (auto simp: addTransaction_def Let_def split: option.splits)

lemma toggleTransactionPaid_atomic:
  "fst (toggleTransactionPaid E token customerId transactionId s) = Inl (Error m)
     \<Longrightarrow> snd (toggleTransactionPaid E token customerId transactionId s) = s"
  by (auto simp: toggleTransactionPaid_def Let_def split_beta split: option.splits)

lemma deleteTransaction_atomic:
  "fst (deleteTransaction E token customerId transactionId s) = Inl (Error m)
     \<Longrightarrow> snd (deleteTransaction E token customerId transactionId s) = s"
  by (auto simp: deleteTransaction_def Let_def split: option.splits)

section \<open>Logging in\<close>


lemma find_none: "(\<forall>x\<in>set xs. \<not> P x) \<Longrightarrow> find P xs = None"
  by (simp add: find_None_iff)

lemma find_snoc_new: "(\<forall>x\<in>set xs. \<not> P x) \<Longrightarrow> P y \<Longrightarrow> find P (xs @ [y]) = Some y"
  by (induction xs) simp_all

lemma list_ex_set: "list_ex P xs \<longleftrightarrow> (\<exists>x\<in>set xs. P x)"
  by (simp add: list_ex_iff)


lemma login_found:
  assumes "find (\<lambda>u. toLowerCase E (username u) = toLowerCase E v) (users (db s)) = Some u"
  shows "login E v pw s =
           (if passwordHash u \<noteq> hashString E pw then (Inl IncorrectPassword, s)
            else case btoa E (username u) of
                   None \<Rightarrow> (Inl InvalidCharacterError, s)
                 | Some t \<Rightarrow> (Inr (t, username u), s))"
  using assms by (simp add: login_def)





section \<open>Account recovery\<close>


lemma map_update_same:
  "i < length xs \<Longrightarrow> f y = f (xs ! i) \<Longrightarrow> map f (xs[i := y]) = map f xs"
  by (simp add: map_update list_update_same_conv)







section \<open>Changing the username\<close>

lemma sessionUser_Some:
  "sessionUser E s token = Some un \<longleftrightarrow>
     atob E token = Some un \<and> un \<noteq> [] \<and> (\<exists>u\<in>set (users (db s)). username u = un)"
  by (auto simp: sessionUser_def getUsernameFromToken_def list_ex_iff split: option.splits if_splits)

lemma sessionUser_None_getCustomers:
  "sessionUser E s token = None \<Longrightarrow> getCustomers E token s = (Inl Unauthorized, s)"
  by (simp add: getCustomers_def)

lemma renamed_has_new:
  "i < length us \<Longrightarrow> \<exists>u\<in>set (us[i := (us ! i)\<lparr>username := new\<rparr>]). username u = new"
  by (metis set_update_memI user.select_convs(1) user.surjective user.update_convs(1))

lemma renamed_lost_old:
  assumes d: "distinct (map username us)" and i: "i < length us"
    and old: "username (us ! i) = old" and ne: "new \<noteq> old"
  shows "\<forall>u\<in>set (us[i := (us ! i)\<lparr>username := new\<rparr>]). username u \<noteq> old"
proof
  fix u
  assume "u \<in> set (us[i := (us ! i)\<lparr>username := new\<rparr>])"
  then obtain j where j: "j < length us" and u: "u = (us[i := (us ! i)\<lparr>username := new\<rparr>]) ! j"
    by (auto simp: in_set_conv_nth)
  show "username u \<noteq> old"
  proof (cases "j = i")
    case True
    with u i ne show ?thesis by simp
  next
    case False
    with u have "u = us ! j" by simp
    moreover from d i j False have "map username us ! j \<noteq> map username us ! i"
      using nth_eq_iff_index_eq [of "map username us" j i] by simp
    ultimately show ?thesis
      using i j old by simp
  qed
qed

lemma updateUsername_run:
  assumes logged: "sessionUser E s token = Some old"
    and fresh: "\<forall>u\<in>set (users (db s)). toLowerCase E (username u) \<noteq> toLowerCase E new"
    and enc: "btoa E new = Some newToken"
  shows "\<exists>i. findIndex (\<lambda>u. username u = old) (users (db s)) = Some i
           \<and> updateUsername E token new s =
               (Inr (newToken, new),
                removeCustomerData old (persistCustomers new (persistUsers
                  (setCustomers old None
                    (setCustomers new (Some (case customers (db s) old of None \<Rightarrow> [] | Some cs \<Rightarrow> cs))
                      (setUsers ((users (db s))[i := (users (db s) ! i)\<lparr>username := new\<rparr>]) s))))))"
proof -
  from logged obtain u where "u \<in> set (users (db s))" "username u = old"
    by (auto simp: sessionUser_Some)
  from findIndex_ex [OF this(1), of "\<lambda>u. username u = old"] this(2)
  obtain i where i: "findIndex (\<lambda>u. username u = old) (users (db s)) = Some i"
    by blast
  from fresh have nf: "\<not> list_ex (\<lambda>u. toLowerCase E (username u) = toLowerCase E new) (users (db s))"
    by (simp add: list_ex_iff)
  show ?thesis
    using logged nf i enc by (simp add: updateUsername_def Let_def)
qed

section \<open>Uniqueness of transaction ids\<close>

lemma all_update:
  "(\<forall>c\<in>set cs. P c) \<Longrightarrow> P c' \<Longrightarrow> \<forall>c\<in>set (cs[i := c']). P c"
  using set_update_subset_insert [of cs i c'] by auto

lemma unique_stored:
  assumes "txIdsUnique s"
    and "\<forall>c\<in>set cs'. distinct (map tid (transactions c))"
  shows "txIdsUnique (persistCustomers un (setCustomers un (Some cs') s))"
  using assms by (auto split: if_splits)

lemma unique_same_db:
  "db s' = db s \<Longrightarrow> txIdsUnique s \<Longrightarrow> txIdsUnique s'"
  by simp

lemma unique_same_customers:
  "customers (db s') = customers (db s) \<Longrightarrow> txIdsUnique s \<Longrightarrow> txIdsUnique s'"
  by simp

lemma unique_login: "txIdsUnique s \<Longrightarrow> txIdsUnique (snd (login E u p s))"
  by (rule unique_same_db) (auto simp: login_def split: option.splits)

lemma unique_findUserForRecovery:
  "txIdsUnique s \<Longrightarrow> txIdsUnique (snd (findUserForRecovery E u s))"
  by (rule unique_same_db) (auto simp: findUserForRecovery_def split: option.splits)

lemma unique_verifyRecoveryAnswer:
  "txIdsUnique s \<Longrightarrow> txIdsUnique (snd (verifyRecoveryAnswer E u a s))"
  by (rule unique_same_db) (auto simp: verifyRecoveryAnswer_def Let_def split: option.splits)

lemma unique_getCustomers: "txIdsUnique s \<Longrightarrow> txIdsUnique (snd (getCustomers E t s))"
  by (rule unique_same_db) (auto simp: getCustomers_def split: option.splits)

lemma unique_resetPassword: "txIdsUnique s \<Longrightarrow> txIdsUnique (snd (resetPassword E u p s))"
  by (rule unique_same_customers) (auto simp: resetPassword_def Let_def split: option.splits)

lemma unique_register:
  assumes "txIdsUnique s"
  shows "txIdsUnique (snd (register E u p q a s))"
proof (cases "list_ex (\<lambda>x. toLowerCase E (username x) = toLowerCase E u) (users (db s))")
  case True
  with assms show ?thesis by (simp add: register_def)
next
  case False
  have "customers (db (snd (register E u p q a s))) = (customers (db s))(u \<mapsto> [])"
    using False by (simp add: register_def Let_def split: option.splits)
  with assms show ?thesis
    by (auto split: if_splits)
qed

lemma customers_updateUsername:
  "customers (db (snd (updateUsername E t new s))) = customers (db s)
   \<or> (\<exists>old. customers (db (snd (updateUsername E t new s)))
          = ((customers (db s))(new \<mapsto> (case customers (db s) old of None \<Rightarrow> [] | Some cs \<Rightarrow> cs)))
              (old := None))"
proof (cases "sessionUser E s t")
  case None
  then show ?thesis by (simp add: updateUsername_def)
next
  case (Some old)
  show ?thesis
  proof (cases "list_ex (\<lambda>u. toLowerCase E (username u) = toLowerCase E new) (users (db s))")
    case True
    with Some show ?thesis by (simp add: updateUsername_def)
  next
    case False
    show ?thesis
    proof (cases "findIndex (\<lambda>u. username u = old) (users (db s))")
      case None
      with Some False show ?thesis by (simp add: updateUsername_def)
    next
      case (Some i)
      have "customers (db (snd (updateUsername E t new s)))
          = ((customers (db s))(new \<mapsto> (case customers (db s) old of None \<Rightarrow> [] | Some cs \<Rightarrow> cs)))
              (old := None)"
        using \<open>sessionUser E s t = Some old\<close> False Some
        by (cases "btoa E new") (simp_all add: updateUsername_def Let_def)
      then show ?thesis
        by blast
    qed
  qed
qed

lemma unique_updateUsername:
  assumes "txIdsUnique s"
  shows "txIdsUnique (snd (updateUsername E t new s))"
proof -
  from customers_updateUsername [of E t new s]
  consider "customers (db (snd (updateUsername E t new s))) = customers (db s)"
    | old where "customers (db (snd (updateUsername E t new s)))
          = ((customers (db s))(new \<mapsto> (case customers (db s) old of None \<Rightarrow> [] | Some cs \<Rightarrow> cs)))
              (old := None)"
    by blast
  then show ?thesis
  proof cases
    case 1
    with assms show ?thesis by simp
  next
    case 2
    with assms show ?thesis
      by (auto split: if_splits option.splits)
  qed
qed

lemma unique_addCustomer:
  assumes "txIdsUnique s"
  shows "txIdsUnique (snd (addCustomer E now t n s))"
proof (cases "sessionUser E s t")
  case None
  with assms show ?thesis by (simp add: addCustomer_def)
next
  case (Some un)
  show ?thesis
  proof (cases "customers (db s) un")
    case None
    with Some assms show ?thesis by (simp add: addCustomer_def Let_def)
  next
    case (Some cs)
    have "\<forall>c\<in>set (cs @ [\<lparr> cid = toString now, name = n, transactions = [] \<rparr>]).
            distinct (map tid (transactions c))"
      using assms Some by auto
    from unique_stored [OF assms this, of un] \<open>sessionUser E s t = Some un\<close> Some
    show ?thesis
      by (simp add: addCustomer_def Let_def)
  qed
qed

lemma unique_deleteCustomer:
  assumes "txIdsUnique s"
  shows "txIdsUnique (snd (deleteCustomer E t c s))"
proof (cases "sessionUser E s t")
  case None
  with assms show ?thesis by (simp add: deleteCustomer_def)
next
  case (Some un)
  show ?thesis
  proof (cases "customers (db s) un")
    case None
    with Some assms show ?thesis by (simp add: deleteCustomer_def)
  next
    case (Some cs)
    have "\<forall>x\<in>set (filter (\<lambda>x. cid x \<noteq> c) cs). distinct (map tid (transactions x))"
      using assms Some by auto
    from unique_stored [OF assms this, of un] \<open>sessionUser E s t = Some un\<close> Some
    show ?thesis
      by (simp add: deleteCustomer_def)
  qed
qed

text \<open>
  The four operations that replace one customer of the list: the state is unchanged or
  the list is stored with the customer at the found position replaced.
\<close>

lemma unique_replaced:
  assumes u: "txIdsUnique s"
    and cs: "customers (db s) un = Some cs"
    and new: "distinct (map tid (transactions c'))"
  shows "txIdsUnique (persistCustomers un (setCustomers un (Some (cs[i := c'])) s))"
proof (rule unique_stored [OF u])
  from u cs have "\<forall>c\<in>set cs. distinct (map tid (transactions c))"
    by blast
  then show "\<forall>c\<in>set (cs[i := c']). distinct (map tid (transactions c))"
    using new by (rule all_update)
qed

lemma unique_renameCustomer:
  assumes "txIdsUnique s"
  shows "txIdsUnique (snd (renameCustomer E t c n s))"
proof (cases "sessionUser E s t")
  case None
  with assms show ?thesis by (simp add: renameCustomer_def)
next
  case (Some un)
  show ?thesis
  proof (cases "customers (db s) un")
    case None
    with Some assms show ?thesis by (simp add: renameCustomer_def)
  next
    case cs: (Some cs)
    show ?thesis
    proof (cases "findIndex (\<lambda>x. cid x = c) cs")
      case None
      with Some cs assms show ?thesis by (simp add: renameCustomer_def)
    next
      case (Some i)
      from findIndex_Some [OF Some] have "cs ! i \<in> set cs"
        by simp
      with assms cs have "distinct (map tid (transactions ((cs ! i)\<lparr>name := n\<rparr>)))"
        by auto
      from unique_replaced [OF assms cs this, of i] \<open>sessionUser E s t = Some un\<close> cs Some
      show ?thesis
        by (simp add: renameCustomer_def Let_def)
    qed
  qed
qed

lemma unique_addTransaction:
  assumes u: "txIdsUnique s" and fresh: "clockFresh E (AddTransaction now t c d) s"
  shows "txIdsUnique (snd (addTransaction E now t c d s))"
proof (cases "sessionUser E s t")
  case None
  with u show ?thesis by (simp add: addTransaction_def)
next
  case (Some un)
  show ?thesis
  proof (cases "customers (db s) un")
    case None
    with Some u show ?thesis by (simp add: addTransaction_def)
  next
    case cs: (Some cs)
    show ?thesis
    proof (cases "findIndex (\<lambda>x. cid x = c) cs")
      case None
      with Some cs u show ?thesis by (simp add: addTransaction_def)
    next
      case i: (Some i)
      show ?thesis
      proof (cases "toISOString E (txDate d @ ''T00:00:00'')")
        case None
        with Some cs i u show ?thesis by (simp add: addTransaction_def Let_def)
      next
        case (Some isoDate)
        let ?t = "\<lparr> tid = toString now, productName = txProductName d,
                     quantity = txQuantity d, amount = txPrice d, isPaid = False,
                     date = isoDate \<rparr>"
        from findIndex_Some [OF i] have "cs ! i \<in> set cs"
          by simp
        with u cs have old: "distinct (map tid (transactions (cs ! i)))"
          by blast
        from fresh \<open>sessionUser E s t = Some un\<close> cs i
        have "toString now \<notin> set (map tid (transactions (cs ! i)))"
          by simp
        with old
        have "distinct (map tid (transactions ((cs ! i)\<lparr>transactions := ?t # transactions (cs ! i)\<rparr>)))"
          by simp
        from unique_replaced [OF u cs this, of i] \<open>sessionUser E s t = Some un\<close> cs i Some
        show ?thesis
          by (simp add: addTransaction_def Let_def)
      qed
    qed
  qed
qed

lemma unique_toggleTransactionPaid:
  assumes u: "txIdsUnique s"
  shows "txIdsUnique (snd (toggleTransactionPaid E t c x s))"
proof (cases "sessionUser E s t")
  case None
  with u show ?thesis by (simp add: toggleTransactionPaid_def)
next
  case (Some un)
  show ?thesis
  proof (cases "customers (db s) un")
    case None
    with Some u show ?thesis by (simp add: toggleTransactionPaid_def)
  next
    case cs: (Some cs)
    show ?thesis
    proof (cases "findIndex (\<lambda>x. cid x = c) cs")
      case None
      with Some cs u show ?thesis by (simp add: toggleTransactionPaid_def)
    next
      case i: (Some i)
      obtain ts' r where tm: "toggleMap x (transactions (cs ! i)) None = (ts', r)"
        by (cases "toggleMap x (transactions (cs ! i)) None")
      show ?thesis
      proof (cases r)
        case None
        with Some cs i tm u show ?thesis
          by (simp add: toggleTransactionPaid_def Let_def)
      next
        case r: (Some t')
        from tm toggleMap_fst [of x "transactions (cs ! i)" None]
        have "map tid ts' = map tid (transactions (cs ! i))"
          by (simp add: toggle_ids)
        moreover from findIndex_Some [OF i] have "cs ! i \<in> set cs"
          by simp
        ultimately have "distinct (map tid (transactions ((cs ! i)\<lparr>transactions := ts'\<rparr>)))"
          using u cs by auto
        from unique_replaced [OF u cs this, of i]
        show ?thesis
          using toggle_run [OF Some cs i, of x ts' t'] tm r by simp
      qed
    qed
  qed
qed

lemma unique_deleteTransaction:
  assumes u: "txIdsUnique s"
  shows "txIdsUnique (snd (deleteTransaction E t c x s))"
proof (cases "sessionUser E s t")
  case None
  with u show ?thesis by (simp add: deleteTransaction_def)
next
  case (Some un)
  show ?thesis
  proof (cases "customers (db s) un")
    case None
    with Some u show ?thesis by (simp add: deleteTransaction_def)
  next
    case cs: (Some cs)
    show ?thesis
    proof (cases "findIndex (\<lambda>x. cid x = c) cs")
      case None
      with Some cs u show ?thesis by (simp add: deleteTransaction_def)
    next
      case i: (Some i)
      show ?thesis
      proof (cases "findIndex (\<lambda>y. tid y = x) (transactions (cs ! i))")
        case None
        with Some cs i u show ?thesis by (simp add: deleteTransaction_def Let_def)
      next
        case j: (Some j)
        from findIndex_Some [OF i] have "cs ! i \<in> set cs"
          by simp
        with u cs have "distinct (map tid (transactions (cs ! i)))"
          by blast
        then have "distinct (map tid (transactions
            ((cs ! i)\<lparr>transactions := filter (\<lambda>y. tid y \<noteq> x) (transactions (cs ! i))\<rparr>)))"
          by (simp add: distinct_map_filter)
        from unique_replaced [OF u cs this, of i] Some cs i j
        show ?thesis
          by (simp add: deleteTransaction_def Let_def)
      qed
    qed
  qed
qed

lemma unique_step:
  assumes u: "txIdsUnique s" and f: "clockFresh E c s"
  shows "txIdsUnique (step E c s)"
proof (cases c)
  case (Login x1 x2)
  show ?thesis
    unfolding Login step.simps using u by (rule unique_login)
next
  case (Register x1 x2 x3 x4)
  show ?thesis
    unfolding Register step.simps using u by (rule unique_register)
next
  case (FindUserForRecovery x1)
  show ?thesis
    unfolding FindUserForRecovery step.simps using u by (rule unique_findUserForRecovery)
next
  case (VerifyRecoveryAnswer x1 x2)
  show ?thesis
    unfolding VerifyRecoveryAnswer step.simps using u by (rule unique_verifyRecoveryAnswer)
next
  case (ResetPassword x1 x2)
  show ?thesis
    unfolding ResetPassword step.simps using u by (rule unique_resetPassword)
next
  case (UpdateUsername x1 x2)
  show ?thesis
    unfolding UpdateUsername step.simps using u by (rule unique_updateUsername)
next
  case (GetCustomers x1)
  show ?thesis
    unfolding GetCustomers step.simps using u by (rule unique_getCustomers)
next
  case (AddCustomer x1 x2 x3)
  show ?thesis
    unfolding AddCustomer step.simps using u by (rule unique_addCustomer)
next
  case (RenameCustomer x1 x2 x3)
  show ?thesis
    unfolding RenameCustomer step.simps using u by (rule unique_renameCustomer)
next
  case (DeleteCustomer x1 x2)
  show ?thesis
    unfolding DeleteCustomer step.simps using u by (rule unique_deleteCustomer)
next
  case (AddTransaction x1 x2 x3 x4)
  from f have "clockFresh E (AddTransaction x1 x2 x3 x4) s"
    unfolding AddTransaction .
  with u show ?thesis
    unfolding AddTransaction step.simps by (rule unique_addTransaction)
next
  case (ToggleTransactionPaid x1 x2 x3)
  show ?thesis
    unfolding ToggleTransactionPaid step.simps using u by (rule unique_toggleTransactionPaid)
next
  case (DeleteTransaction x1 x2 x3)
  show ?thesis
    unfolding DeleteTransaction step.simps using u by (rule unique_deleteTransaction)
qed

lemma unique_run:
  "txIdsUnique s \<Longrightarrow> clocksFresh E calls s \<Longrightarrow> txIdsUnique (run E calls s)"
proof (induction calls arbitrary: s)
  case Nil
  then show ?case by simp
next
  case (Cons c calls)
  from Cons.prems(2) have f: "clockFresh E c s" and r: "clocksFresh E calls (step E c s)"
    by simp_all
  from unique_step [OF Cons.prems(1) f] have "txIdsUnique (step E c s)" .
  from Cons.IH [OF this r] show ?case
    by simp
qed

lemma addTransaction_run:
  assumes "sessionUser E s token = Some un"
    and "customers (db s) un = Some cs"
    and "findIndex (\<lambda>c. cid c = customerId) cs = Some i"
    and "toISOString E (txDate d @ ''T00:00:00'') = Some isoDate"
    and "toString now = newId"
  shows "addTransaction E now token customerId d s =
           (Inr \<lparr> tid = newId, productName = txProductName d, quantity = txQuantity d,
                  amount = txPrice d, isPaid = False, date = isoDate \<rparr>,
            persistCustomers un (setCustomers un
              (Some (cs[i := (cs ! i)\<lparr>transactions :=
                 \<lparr> tid = newId, productName = txProductName d, quantity = txQuantity d,
                   amount = txPrice d, isPaid = False, date = isoDate \<rparr> # transactions (cs ! i)\<rparr>])) s))"
  using assms by (simp add: addTransaction_def Let_def)

lemma addCustomer_run:
  assumes "sessionUser E s token = Some un"
    and "customers (db s) un = Some cs"
    and "toString now = newId"
  shows "addCustomer E now token nm s =
           (Inr \<lparr> cid = newId, name = nm, transactions = [] \<rparr>,
            persistCustomers un (setCustomers un
              (Some (cs @ [\<lparr> cid = newId, name = nm, transactions = [] \<rparr>])) s))"
  using assms by (simp add: addCustomer_def Let_def)

lemma clock0: "toString 1700000000000 = ''1700000000000''"
  by (simp add: toString.simps)

lemma clock1: "toString 1700000000001 = ''1700000000001''"
  by (simp add: toString.simps)

lemma clock2: "toString 1700000000002 = ''1700000000002''"
  by (simp add: toString.simps)

lemma run_append: "run E (xs @ ys) s = run E ys (run E xs s)"
  by (induction xs arbitrary: s) simp_all

lemma world1_history:
  "clocksFresh testPlatform history emptyWorld \<and> run testPlatform history emptyWorld = world1"
proof -
  let ?P = testPlatform
  let ?s1 = "step ?P (Register ''Alice'' ''pw1'' ''First pet?'' ''Rex'') emptyWorld"
  have s1: "?s1 = \<lparr> db = \<lparr> users = [alice], customers = [''Alice'' \<mapsto> []] \<rparr>,
               localStorage = \<lparr> debtBookUsers = Some [alice],
                                debtBookData = [''Alice'' \<mapsto> []] \<rparr> \<rparr>" (is "_ = ?w1")
  proof -
    have b: "btoa ?P ''Alice'' = Some aliceToken"
      by code_simp
    have l: "toLowerCase ?P ''Rex'' = ''rex''"
      by code_simp
    show ?thesis
      by (simp add: register_def Let_def emptyWorld_def b l alice_def setUsers_def
          setCustomers_def persistUsers_def persistCustomers_def)
  qed
  have u1: "sessionUser ?P ?w1 aliceToken = Some ''Alice''"
    by code_simp
  have s2: "step ?P (AddCustomer 1700000000000 aliceToken ''Ann'') ?w1
      = \<lparr> db = \<lparr> users = [alice], customers = [''Alice'' \<mapsto> [ann\<lparr>transactions := []\<rparr>]] \<rparr>,
               localStorage = \<lparr> debtBookUsers = Some [alice],
                                debtBookData = [''Alice'' \<mapsto> [ann\<lparr>transactions := []\<rparr>]] \<rparr> \<rparr>"
      (is "_ = ?w2")
    using addCustomer_run [OF u1 _ clock0, of "[]" "''Ann''"]
    by (simp add: ann_def setCustomers_def persistCustomers_def)
  have u2: "sessionUser ?P ?w2 aliceToken = Some ''Alice''"
    by code_simp
  have f2: "findIndex (\<lambda>c. cid c = ''1700000000000'') [ann\<lparr>transactions := []\<rparr>] = Some 0"
    by (simp add: ann_def)
  have d2: "toISOString ?P (txDate riceData @ ''T00:00:00'') = Some ''2024-01-05T00:00:00.000Z''"
    by code_simp
  have s3: "step ?P (AddTransaction 1700000000001 aliceToken ''1700000000000'' riceData) ?w2
      = \<lparr> db = \<lparr> users = [alice],
                   customers = [''Alice'' \<mapsto> [ann\<lparr>transactions := [rice\<lparr>isPaid := False\<rparr>]\<rparr>]] \<rparr>,
               localStorage = \<lparr> debtBookUsers = Some [alice],
                   debtBookData = [''Alice'' \<mapsto> [ann\<lparr>transactions := [rice\<lparr>isPaid := False\<rparr>]\<rparr>]] \<rparr> \<rparr>"
      (is "_ = ?w3")
    using addTransaction_run [OF u2 _ f2 d2 clock1]
    by (simp add: ann_def rice_def riceData_def setCustomers_def persistCustomers_def)
  have u3: "sessionUser ?P ?w3 aliceToken = Some ''Alice''"
    by code_simp
  have f3: "findIndex (\<lambda>c. cid c = ''1700000000000'')
              [ann\<lparr>transactions := [rice\<lparr>isPaid := False\<rparr>]\<rparr>] = Some 0"
    by (simp add: ann_def)
  have m3: "toggleMap ''1700000000001''
              (transactions ([ann\<lparr>transactions := [rice\<lparr>isPaid := False\<rparr>]\<rparr>] ! 0)) None
            = ([rice], Some rice)"
    by (simp add: rice_def Let_def)
  have s4: "step ?P (ToggleTransactionPaid aliceToken ''1700000000000'' ''1700000000001'') ?w3 = world1"
    using toggle_run [OF u3 _ f3 m3]
    by (simp add: world1_def ann_def setCustomers_def persistCustomers_def)
  have r: "run ?P history emptyWorld = world1"
    by (simp only: history_def run.simps s1 s2 s3 s4)
  have c2: "customers (db ?w2) ''Alice'' = Some [ann\<lparr>transactions := []\<rparr>]"
    by simp
  have "clockFresh ?P (AddTransaction 1700000000001 aliceToken ''1700000000000'' riceData) ?w2"
    by (simp only: clockFresh.simps u2 c2 f2 option.case) simp
  then have f: "clocksFresh ?P history emptyWorld"
    by (simp only: history_def clocksFresh.simps clockFresh.simps s1 s2 s3 s4 simp_thms)
  from f r show ?thesis
    by (rule conjI)
qed

section \<open>What the operations keep true\<close>

text \<open>
  Each of the six operations on customers and transactions leaves the state as it is or
  stores one user's list and persists it.
\<close>

lemma shape_addCustomer:
  "snd (addCustomer E now t n s) = s
   \<or> (\<exists>un cs'. snd (addCustomer E now t n s) = persistCustomers un (setCustomers un (Some cs') s))"
  by (auto simp: addCustomer_def Let_def split: option.splits)

lemma shape_renameCustomer:
  "snd (renameCustomer E t c n s) = s
   \<or> (\<exists>un cs'. snd (renameCustomer E t c n s) = persistCustomers un (setCustomers un (Some cs') s))"
  by (auto simp: renameCustomer_def Let_def split: option.splits)

lemma shape_deleteCustomer:
  "snd (deleteCustomer E t c s) = s
   \<or> (\<exists>un cs'. snd (deleteCustomer E t c s) = persistCustomers un (setCustomers un (Some cs') s))"
  by (auto simp: deleteCustomer_def Let_def split: option.splits)

lemma shape_addTransaction:
  "snd (addTransaction E now t c d s) = s
   \<or> (\<exists>un cs'. snd (addTransaction E now t c d s) = persistCustomers un (setCustomers un (Some cs') s))"
  by (auto simp: addTransaction_def Let_def split: option.splits)

lemma shape_toggleTransactionPaid:
  "snd (toggleTransactionPaid E t c x s) = s
   \<or> (\<exists>un cs'. snd (toggleTransactionPaid E t c x s) = persistCustomers un (setCustomers un (Some cs') s))"
  by (auto simp: toggleTransactionPaid_def Let_def split_beta split: option.splits)

lemma shape_deleteTransaction:
  "snd (deleteTransaction E t c x s) = s
   \<or> (\<exists>un cs'. snd (deleteTransaction E t c x s) = persistCustomers un (setCustomers un (Some cs') s))"
  by (auto simp: deleteTransaction_def Let_def split: option.splits)

lemma state_login [simp]: "snd (login E u p s) = s"
  by (auto simp: login_def split: option.splits)

lemma state_findUserForRecovery [simp]: "snd (findUserForRecovery E u s) = s"
  by (auto simp: findUserForRecovery_def split: option.splits)

lemma state_verifyRecoveryAnswer [simp]: "snd (verifyRecoveryAnswer E u a s) = s"
  by (auto simp: verifyRecoveryAnswer_def Let_def split: option.splits)

lemma state_getCustomers [simp]: "snd (getCustomers E t s) = s"
  by (auto simp: getCustomers_def split: option.splits)

lemma users_register:
  "users (db (snd (register E u p q a s))) = users (db s)
   \<or> (\<forall>x\<in>set (users (db s)). toLowerCase E (username x) \<noteq> toLowerCase E u)
      \<and> (\<exists>new. username new = u \<and> users (db (snd (register E u p q a s))) = users (db s) @ [new])"
  by (auto simp: register_def Let_def list_ex_iff split: option.splits)

lemma users_resetPassword:
  "map (\<lambda>x. g (username x)) (users (db (snd (resetPassword E u p s))))
     = map (\<lambda>x. g (username x)) (users (db s))"
proof (cases "findIndex (\<lambda>x. toLowerCase E (username x) = toLowerCase E u) (users (db s))")
  case None
  then show ?thesis by (simp add: resetPassword_def)
next
  case (Some i)
  from findIndex_Some [OF Some] have "i < length (users (db s))"
    by simp
  then have "map (\<lambda>x. g (username x))
        ((users (db s))[i := (users (db s) ! i)\<lparr>passwordHash := hashString E p\<rparr>])
      = map (\<lambda>x. g (username x)) (users (db s))"
    by (intro map_update_same) simp_all
  with Some show ?thesis
    by (simp add: resetPassword_def Let_def)
qed

lemma users_updateUsername:
  "users (db (snd (updateUsername E t new s))) = users (db s)
   \<or> (\<forall>x\<in>set (users (db s)). toLowerCase E (username x) \<noteq> toLowerCase E new)
      \<and> (\<exists>i<length (users (db s)). users (db (snd (updateUsername E t new s)))
            = (users (db s))[i := (users (db s) ! i)\<lparr>username := new\<rparr>])"
proof (cases "sessionUser E s t")
  case None
  then show ?thesis by (simp add: updateUsername_def)
next
  case (Some old)
  show ?thesis
  proof (cases "list_ex (\<lambda>u. toLowerCase E (username u) = toLowerCase E new) (users (db s))")
    case True
    with Some show ?thesis by (simp add: updateUsername_def)
  next
    case False
    show ?thesis
    proof (cases "findIndex (\<lambda>u. username u = old) (users (db s))")
      case None
      with Some False show ?thesis by (simp add: updateUsername_def)
    next
      case i: (Some i)
      from findIndex_Some [OF i] have l: "i < length (users (db s))"
        by simp
      have "users (db (snd (updateUsername E t new s)))
            = (users (db s))[i := (users (db s) ! i)\<lparr>username := new\<rparr>]"
        using Some False i by (cases "btoa E new") (simp_all add: updateUsername_def Let_def)
      with l False show ?thesis
        by (auto simp: list_ex_iff)
    qed
  qed
qed

lemma users_stored [simp]:
  "users (db (persistCustomers un (setCustomers un' v s))) = users (db s)"
  by simp

lemma names_step:
  assumes n: "distinct (map (\<lambda>u. toLowerCase E (username u)) (users (db s)))"
  shows "distinct (map (\<lambda>u. toLowerCase E (username u)) (users (db (step E c s))))"
proof (cases c)
  case (Register u p q a)
  let ?f = "\<lambda>u. toLowerCase E (username u)"
  from users_register [of E u p q a s]
  consider "users (db (snd (register E u p q a s))) = users (db s)"
    | new where "\<forall>x\<in>set (users (db s)). ?f x \<noteq> toLowerCase E u" "username new = u"
        "users (db (snd (register E u p q a s))) = users (db s) @ [new]"
    by blast
  then show ?thesis
  proof cases
    case 1
    with n show ?thesis unfolding Register step.simps by simp
  next
    case 2
    from 2(1,2) have "?f new \<notin> set (map ?f (users (db s)))"
      by auto
    with n 2(3) show ?thesis
      unfolding Register step.simps by simp
  qed
next
  case (ResetPassword u p)
  note users_resetPassword [of "toLowerCase E" E u p s]
  with n show ?thesis
    unfolding ResetPassword step.simps by simp
next
  case (UpdateUsername t new)
  let ?f = "\<lambda>u. toLowerCase E (username u)"
  from users_updateUsername [of E t new s]
  consider "users (db (snd (updateUsername E t new s))) = users (db s)"
    | i where "\<forall>x\<in>set (users (db s)). ?f x \<noteq> toLowerCase E new" "i < length (users (db s))"
        "users (db (snd (updateUsername E t new s)))
            = (users (db s))[i := (users (db s) ! i)\<lparr>username := new\<rparr>]"
    by blast
  then show ?thesis
  proof cases
    case 1
    with n show ?thesis unfolding UpdateUsername step.simps by simp
  next
    case 2
    have "map ?f ((users (db s))[i := (users (db s) ! i)\<lparr>username := new\<rparr>])
        = (map ?f (users (db s)))[i := toLowerCase E new]"
      by (simp add: map_update)
    moreover from 2(1) have "toLowerCase E new \<notin> set (map ?f (users (db s)))"
      by auto
    ultimately have "distinct (map ?f ((users (db s))[i := (users (db s) ! i)\<lparr>username := new\<rparr>]))"
      using n by (simp add: distinct_list_update)
    with 2(3) show ?thesis
      unfolding UpdateUsername step.simps by simp
  qed
next
  case (AddCustomer now t nm)
  from shape_addCustomer [of E now t nm s] n show ?thesis
    unfolding AddCustomer step.simps by auto
next
  case (RenameCustomer t cu nm)
  from shape_renameCustomer [of E t cu nm s] n show ?thesis
    unfolding RenameCustomer step.simps by auto
next
  case (DeleteCustomer t cu)
  from shape_deleteCustomer [of E t cu s] n show ?thesis
    unfolding DeleteCustomer step.simps by auto
next
  case (AddTransaction now t cu d)
  from shape_addTransaction [of E now t cu d s] n show ?thesis
    unfolding AddTransaction step.simps by auto
next
  case (ToggleTransactionPaid t cu x)
  from shape_toggleTransactionPaid [of E t cu x s] n show ?thesis
    unfolding ToggleTransactionPaid step.simps by auto
next
  case (DeleteTransaction t cu x)
  from shape_deleteTransaction [of E t cu x s] n show ?thesis
    unfolding DeleteTransaction step.simps by auto
qed (use n in simp_all)

lemma names_run:
  "distinct (map (\<lambda>u. toLowerCase E (username u)) (users (db s)))
   \<Longrightarrow> distinct (map (\<lambda>u. toLowerCase E (username u)) (users (db (run E calls s))))"
proof (induction calls arbitrary: s)
  case Nil
  then show ?case by simp
next
  case (Cons c calls)
  from names_step [OF Cons.prems] have "distinct (map (\<lambda>u. toLowerCase E (username u))
      (users (db (step E c s))))" .
  from Cons.IH [OF this] show ?case
    by simp
qed

text \<open>The persisted customer lists are the lists in memory.\<close>

lemma mirror_stored:
  "debtBookData (localStorage s) = customers (db s) \<Longrightarrow>
   debtBookData (localStorage (persistCustomers un (setCustomers un (Some cs') s)))
     = customers (db (persistCustomers un (setCustomers un (Some cs') s)))"
  by (simp add: persistCustomers_def)

lemma updateUsername_state:
  assumes "sessionUser E s t = Some old"
    and "\<not> list_ex (\<lambda>u. toLowerCase E (username u) = toLowerCase E new) (users (db s))"
  shows "\<exists>i. findIndex (\<lambda>u. username u = old) (users (db s)) = Some i
           \<and> snd (updateUsername E t new s) =
                removeCustomerData old (persistCustomers new (persistUsers
                  (setCustomers old None
                    (setCustomers new (Some (case customers (db s) old of None \<Rightarrow> [] | Some cs \<Rightarrow> cs))
                      (setUsers ((users (db s))[i := (users (db s) ! i)\<lparr>username := new\<rparr>]) s)))))"
proof -
  from assms(1) obtain u where "u \<in> set (users (db s))" "username u = old"
    by (auto simp: sessionUser_Some)
  from findIndex_ex [OF this(1), of "\<lambda>u. username u = old"] this(2)
  obtain i where i: "findIndex (\<lambda>u. username u = old) (users (db s)) = Some i"
    by blast
  show ?thesis
    using assms i by (cases "btoa E new") (simp_all add: updateUsername_def Let_def)
qed

lemma updateUsername_same:
  "sessionUser E s t = None
   \<or> list_ex (\<lambda>u. toLowerCase E (username u) = toLowerCase E new) (users (db s))
   \<Longrightarrow> snd (updateUsername E t new s) = s"
  by (auto simp: updateUsername_def split: option.splits)

lemma mirror_step:
  assumes m: "debtBookData (localStorage s) = customers (db s)"
  shows "debtBookData (localStorage (step E c s)) = customers (db (step E c s))"
proof (cases c)
  case (Register u p q a)
  show ?thesis
    unfolding Register step.simps using m
    by (auto simp: register_def Let_def persistCustomers_def persistUsers_def split: option.splits)
next
  case (ResetPassword u p)
  show ?thesis
    unfolding ResetPassword step.simps using m
    by (auto simp: resetPassword_def Let_def persistUsers_def split: option.splits)
next
  case (UpdateUsername t new)
  show ?thesis
  proof (cases "sessionUser E s t = None
      \<or> list_ex (\<lambda>u. toLowerCase E (username u) = toLowerCase E new) (users (db s))")
    case True
    from updateUsername_same [OF True] m show ?thesis
      unfolding UpdateUsername step.simps by simp
  next
    case False
    then obtain old where "sessionUser E s t = Some old"
      and "\<not> list_ex (\<lambda>u. toLowerCase E (username u) = toLowerCase E new) (users (db s))"
      by auto
    from updateUsername_state [OF this] m show ?thesis
      unfolding UpdateUsername step.simps
      by (auto simp: removeCustomerData_def persistCustomers_def persistUsers_def)
  qed
next
  case (AddCustomer now t nm)
  from shape_addCustomer [of E now t nm s] m mirror_stored [OF m] show ?thesis
    unfolding AddCustomer step.simps by auto
next
  case (RenameCustomer t cu nm)
  from shape_renameCustomer [of E t cu nm s] m mirror_stored [OF m] show ?thesis
    unfolding RenameCustomer step.simps by auto
next
  case (DeleteCustomer t cu)
  from shape_deleteCustomer [of E t cu s] m mirror_stored [OF m] show ?thesis
    unfolding DeleteCustomer step.simps by auto
next
  case (AddTransaction now t cu d)
  from shape_addTransaction [of E now t cu d s] m mirror_stored [OF m] show ?thesis
    unfolding AddTransaction step.simps by auto
next
  case (ToggleTransactionPaid t cu x)
  from shape_toggleTransactionPaid [of E t cu x s] m mirror_stored [OF m] show ?thesis
    unfolding ToggleTransactionPaid step.simps by auto
next
  case (DeleteTransaction t cu x)
  from shape_deleteTransaction [of E t cu x s] m mirror_stored [OF m] show ?thesis
    unfolding DeleteTransaction step.simps by auto
qed (use m in simp_all)

lemma mirror_run:
  "debtBookData (localStorage s) = customers (db s)
   \<Longrightarrow> debtBookData (localStorage (run E calls s)) = customers (db (run E calls s))"
proof (induction calls arbitrary: s)
  case Nil
  then show ?case by simp
next
  case (Cons c calls)
  from mirror_step [OF Cons.prems]
  have "debtBookData (localStorage (step E c s)) = customers (db (step E c s))" .
  from Cons.IH [OF this] show ?case
    by simp
qed

text \<open>Every user of the directory has a customer list, so no operation meets \<^verbatim>\<open>undefined\<close>.\<close>

lemma distinct_lower_names:
  "distinct (map (\<lambda>u. toLowerCase E (username u)) us) \<Longrightarrow> distinct (map username us)"
  by (induction us) auto

lemma lists_stored:
  "\<forall>n\<in>set (map username (users (db s))). customers (db s) n \<noteq> None \<Longrightarrow>
   \<forall>n\<in>set (map username (users (db (persistCustomers un (setCustomers un (Some cs') s))))).
      customers (db (persistCustomers un (setCustomers un (Some cs') s))) n \<noteq> None"
  by simp

lemma lists_step:
  assumes n: "distinct (map (\<lambda>u. toLowerCase E (username u)) (users (db s)))"
    and h: "\<forall>n\<in>set (map username (users (db s))). customers (db s) n \<noteq> None"
  shows "\<forall>n\<in>set (map username (users (db (step E c s)))). customers (db (step E c s)) n \<noteq> None"
proof (cases c)
  case (Register u p q a)
  show ?thesis
    unfolding Register step.simps using h
    by (auto simp: register_def Let_def split: option.splits)
next
  case (ResetPassword u p)
  have c: "customers (db (snd (resetPassword E u p s))) = customers (db s)"
    by (auto simp: resetPassword_def Let_def split: option.splits)
  from users_resetPassword [of "\<lambda>x. x" E u p s] h c show ?thesis
    unfolding ResetPassword step.simps by simp
next
  case (UpdateUsername t new)
  show ?thesis
  proof (cases "sessionUser E s t = None
      \<or> list_ex (\<lambda>u. toLowerCase E (username u) = toLowerCase E new) (users (db s))")
    case True
    from updateUsername_same [OF True] h show ?thesis
      unfolding UpdateUsername step.simps by simp
  next
    case False
    then obtain old where o: "sessionUser E s t = Some old"
      and f: "\<not> list_ex (\<lambda>u. toLowerCase E (username u) = toLowerCase E new) (users (db s))"
      by auto
    let ?us = "users (db s)"
    from updateUsername_state [OF o f]
    obtain i where i: "findIndex (\<lambda>u. username u = old) ?us = Some i"
      and us': "users (db (snd (updateUsername E t new s))) = ?us[i := (?us ! i)\<lparr>username := new\<rparr>]"
      and cu: "customers (db (snd (updateUsername E t new s)))
          = ((customers (db s))(new \<mapsto> (case customers (db s) old of None \<Rightarrow> [] | Some cs \<Rightarrow> cs)))
              (old := None)"
      by auto
    from findIndex_Some [OF i] have l: "i < length ?us" and ui: "username (?us ! i) = old"
      by simp_all
    from f l ui have ne: "new \<noteq> old"
      using nth_mem [OF l] by (auto simp: list_ex_iff)
    from renamed_lost_old [OF distinct_lower_names [OF n] l ui ne]
    have lost: "\<forall>u\<in>set (?us[i := (?us ! i)\<lparr>username := new\<rparr>]). username u \<noteq> old" .
    have "customers (db (snd (updateUsername E t new s))) (username u) \<noteq> None"
      if "u \<in> set (?us[i := (?us ! i)\<lparr>username := new\<rparr>])" for u
    proof (cases "username u = new")
      case True
      with ne show ?thesis by (simp add: cu)
    next
      case False
      from that have "u = (?us ! i)\<lparr>username := new\<rparr> \<or> u \<in> set ?us"
        using set_update_subset_insert [of ?us i] by auto
      with False have "u \<in> set ?us"
        by auto
      with h have "customers (db s) (username u) \<noteq> None"
        by simp
      with False lost that show ?thesis
        by (simp add: cu)
    qed
    then show ?thesis
      unfolding UpdateUsername step.simps us' by simp
  qed
next
  case (AddCustomer now t nm)
  from shape_addCustomer [of E now t nm s] h lists_stored [OF h] show ?thesis
    unfolding AddCustomer step.simps by auto
next
  case (RenameCustomer t cu nm)
  from shape_renameCustomer [of E t cu nm s] h lists_stored [OF h] show ?thesis
    unfolding RenameCustomer step.simps by auto
next
  case (DeleteCustomer t cu)
  from shape_deleteCustomer [of E t cu s] h lists_stored [OF h] show ?thesis
    unfolding DeleteCustomer step.simps by auto
next
  case (AddTransaction now t cu d)
  from shape_addTransaction [of E now t cu d s] h lists_stored [OF h] show ?thesis
    unfolding AddTransaction step.simps by auto
next
  case (ToggleTransactionPaid t cu x)
  from shape_toggleTransactionPaid [of E t cu x s] h lists_stored [OF h] show ?thesis
    unfolding ToggleTransactionPaid step.simps by auto
next
  case (DeleteTransaction t cu x)
  from shape_deleteTransaction [of E t cu x s] h lists_stored [OF h] show ?thesis
    unfolding DeleteTransaction step.simps by auto
qed (use h in simp_all)

lemma lists_run:
  "distinct (map (\<lambda>u. toLowerCase E (username u)) (users (db s)))
   \<Longrightarrow> \<forall>n\<in>set (map username (users (db s))). customers (db s) n \<noteq> None
   \<Longrightarrow> \<forall>n\<in>set (map username (users (db (run E calls s)))).
         customers (db (run E calls s)) n \<noteq> None"
proof (induction calls arbitrary: s)
  case Nil
  then show ?case by simp
next
  case (Cons c calls)
  from names_step [OF Cons.prems(1)] lists_step [OF Cons.prems] Cons.IH [of "step E c s"]
  show ?case
    by simp
qed

text \<open>
  The states the operations produce from the empty store: names are unique under
  case-insensitive comparison, every user has a list, and the persisted lists mirror the
  lists in memory. A session therefore always has a list to work on.
\<close>

lemma reachable_invariants:
  "distinct (map (\<lambda>u. toLowerCase E (username u)) (users (db (run E calls emptyWorld))))"
  "\<forall>n\<in>set (map username (users (db (run E calls emptyWorld)))).
      customers (db (run E calls emptyWorld)) n \<noteq> None"
  "debtBookData (localStorage (run E calls emptyWorld)) = customers (db (run E calls emptyWorld))"
proof -
  have e: "distinct (map (\<lambda>u. toLowerCase E (username u)) (users (db emptyWorld)))"
    "\<forall>n\<in>set (map username (users (db emptyWorld))). customers (db emptyWorld) n \<noteq> None"
    "debtBookData (localStorage emptyWorld) = customers (db emptyWorld)"
    by (simp_all add: emptyWorld_def)
  show "distinct (map (\<lambda>u. toLowerCase E (username u)) (users (db (run E calls emptyWorld))))"
    by (rule names_run [OF e(1)])
  show "\<forall>n\<in>set (map username (users (db (run E calls emptyWorld)))).
      customers (db (run E calls emptyWorld)) n \<noteq> None"
    by (rule lists_run [OF e(1) e(2)])
  show "debtBookData (localStorage (run E calls emptyWorld)) = customers (db (run E calls emptyWorld))"
    by (rule mirror_run [OF e(3)])
qed

lemma reachable_session_has_list:
  assumes "sessionUser E (run E calls emptyWorld) token = Some un"
  shows "\<exists>cs. customers (db (run E calls emptyWorld)) un = Some cs
           \<and> debtBookData (localStorage (run E calls emptyWorld)) un = Some cs"
proof -
  from assms have "un \<in> set (map username (users (db (run E calls emptyWorld))))"
    by (auto simp: sessionUser_Some)
  with reachable_invariants(2) [of E calls]
  have "customers (db (run E calls emptyWorld)) un \<noteq> None"
    by blast
  then show ?thesis
    by (auto simp: reachable_invariants(3))
qed

text \<open>
  What the claims leave aside: a name that \<^verbatim>\<open>btoa\<close> cannot encode. \<open>register\<close> throws,
  but only after it has stored the user, and every later \<open>login\<close> with the right
  password throws as well.
\<close>

lemma register_unencodable_name:
  assumes "btoa E u = None"
    and "\<forall>x\<in>set (users (db s)). toLowerCase E (username x) \<noteq> toLowerCase E u"
  shows "fst (register E u p q a s) = Inl InvalidCharacterError"
    and "users (db (snd (register E u p q a s))) \<noteq> users (db s)"
    and "login E u p (snd (register E u p q a s))
           = (Inl InvalidCharacterError, snd (register E u p q a s))"
proof -
  let ?new = "\<lparr> username = u, passwordHash = hashString E p, recoveryQuestion = q,
                 recoveryAnswerHash = hashString E (toLowerCase E a) \<rparr>"
  from assms(2) have nf: "\<not> list_ex (\<lambda>x. toLowerCase E (username x) = toLowerCase E u) (users (db s))"
    by (simp add: list_ex_iff)
  with assms(1) show "fst (register E u p q a s) = Inl InvalidCharacterError"
    by (simp add: register_def Let_def)
  from nf assms(1) have us: "users (db (snd (register E u p q a s))) = users (db s) @ [?new]"
    by (simp add: register_def Let_def)
  then show "users (db (snd (register E u p q a s))) \<noteq> users (db s)"
    by simp
  have "find (\<lambda>x. toLowerCase E (username x) = toLowerCase E u)
          (users (db (snd (register E u p q a s)))) = Some ?new"
    unfolding us using assms(2) by (intro find_snoc_new) simp_all
  from login_found [OF this] assms(1)
  show "login E u p (snd (register E u p q a s))
           = (Inl InvalidCharacterError, snd (register E u p q a s))"
    by simp
qed

chapter \<open>The claims\<close>

section \<open>C1: Totals due and spent\<close>



section \<open>C2: Renaming moves the customer data\<close>

text \<open>
  Claim C2, as amended. For a logged-in user (the token resolves to the non-empty name
  \<open>old\<close>) whose customer list, as \<open>getCustomers\<close> returns it, is \<open>L\<close>, and for every
  \<^bold>\<open>non-empty\<close> new name that matches no stored name case-insensitively and that \<^verbatim>\<open>btoa\<close>
  encodes to a token \<open>newToken\<close> decoding back to it: \<open>updateUsername\<close> returns
  \<open>newToken\<close> and the new name; afterwards \<open>getCustomers\<close> with \<open>newToken\<close> returns
  exactly \<open>L\<close>, the in-memory and the persisted entry keyed by \<open>old\<close> are gone, the
  persisted entry keyed by the new name is \<open>L\<close>, and, in a directory without duplicate
  names (\<open>reachable_invariants\<close>, \<open>distinct_lower_names\<close>), \<open>getCustomers\<close> with any token
  that decodes to \<open>old\<close> throws \<open>Unauthorized\<close>.
  (For the empty new name the call succeeds too, but the token it returns is refused:
  see the counterexample.)
\<close>

theorem updateUsername_moves_data:
  assumes logged: "sessionUser E s token = Some old"
    and fresh: "\<forall>u\<in>set (users (db s)). toLowerCase E (username u) \<noteq> toLowerCase E new"
    and nonempty: "new \<noteq> []"
    and enc: "btoa E new = Some newToken"
    and dec: "atob E newToken = Some new"
  shows "\<exists>L s'. getCustomers E token s = (Inr L, s)
           \<and> updateUsername E token new s = (Inr (newToken, new), s')
           \<and> getCustomers E newToken s' = (Inr L, s')
           \<and> customers (db s') old = None
           \<and> debtBookData (localStorage s') old = None
           \<and> debtBookData (localStorage s') new = Some L
           \<and> (distinct (map username (users (db s))) \<longrightarrow>
                (\<forall>tk. atob E tk = Some old \<longrightarrow> getCustomers E tk s' = (Inl Unauthorized, s')))"
proof -
  let ?L = "case customers (db s) old of None \<Rightarrow> [] | Some cs \<Rightarrow> cs"
  from updateUsername_run [OF logged fresh enc]
  obtain i where i: "findIndex (\<lambda>u. username u = old) (users (db s)) = Some i"
    and run: "updateUsername E token new s =
               (Inr (newToken, new),
                removeCustomerData old (persistCustomers new (persistUsers
                  (setCustomers old None
                    (setCustomers new (Some ?L)
                      (setUsers ((users (db s))[i := (users (db s) ! i)\<lparr>username := new\<rparr>]) s))))))"
      (is "_ = (_, ?s')")
    by blast
  let ?us' = "(users (db s))[i := (users (db s) ! i)\<lparr>username := new\<rparr>]"
  from findIndex_Some [OF i] have l: "i < length (users (db s))"
    and ui: "username (users (db s) ! i) = old"
    by simp_all
  from l fresh ui have "toLowerCase E old \<noteq> toLowerCase E new"
    using nth_mem [OF l] by metis
  then have ne: "new \<noteq> old"
    by auto
  have us': "users (db ?s') = ?us'"
    by simp
  have cu: "customers (db ?s') = ((customers (db s))(new \<mapsto> ?L))(old := None)"
    by simp
  have before: "getCustomers E token s = (Inr ?L, s)"
    using logged by (simp add: getCustomers_def)
  have "sessionUser E ?s' newToken = Some new"
    unfolding sessionUser_Some us' using dec nonempty renamed_has_new [OF l] by simp
  then have after: "getCustomers E newToken ?s' = (Inr ?L, ?s')"
    using ne by (simp add: getCustomers_def cu)
  have gone: "customers (db ?s') old = None"
    by (simp add: cu)
  have lsd: "debtBookData (localStorage ?s')
               = ((debtBookData (localStorage s))(new \<mapsto> ?L))(old := None)"
    using ne by (simp add: removeCustomerData_def persistCustomers_def persistUsers_def)
  have gone': "debtBookData (localStorage ?s') old = None"
    by (simp add: lsd)
  have moved: "debtBookData (localStorage ?s') new = Some ?L"
    using ne by (simp add: lsd)
  have stale: "getCustomers E tk ?s' = (Inl Unauthorized, ?s')"
    if d: "distinct (map username (users (db s)))" and tk: "atob E tk = Some old" for tk
  proof -
    from renamed_lost_old [OF d l ui ne]
    have "\<not> (\<exists>u\<in>set (users (db ?s')). username u = old)"
      unfolding us' by blast
    then have "sessionUser E ?s' tk = None"
      using tk sessionUser_Some [of E ?s' tk old]
      by (cases "sessionUser E ?s' tk") (auto simp: sessionUser_Some)
    then show ?thesis
      by (rule sessionUser_None_getCustomers)
  qed
  show ?thesis
    apply (rule exI [of _ ?L])
    apply (rule exI [of _ ?s'])
    apply (intro conjI impI allI)
          apply (rule before)
         apply (rule run)
        apply (rule after)
       apply (rule gone)
      apply (rule gone')
     apply (rule moved)
    apply (erule (1) stale)
    done
qed

theorem updateUsername_moves_data_witness:
  "sessionUser testPlatform world1 aliceToken = Some ''Alice''
   \<and> users (db world1) = [alice]
   \<and> toLowerCase testPlatform (username alice) \<noteq> toLowerCase testPlatform ''Bob''
   \<and> ''Bob'' \<noteq> []
   \<and> btoa testPlatform ''Bob'' = Some ''Qm9i''
   \<and> atob testPlatform ''Qm9i'' = Some ''Bob''
   \<and> distinct (map username (users (db world1)))
   \<and> atob testPlatform aliceToken = Some ''Alice''
   \<and> fst (getCustomers testPlatform aliceToken world1) = Inr [ann]
   \<and> fst (updateUsername testPlatform aliceToken ''Bob'' world1) = Inr (''Qm9i'', ''Bob'')
   \<and> fst (getCustomers testPlatform ''Qm9i''
            (snd (updateUsername testPlatform aliceToken ''Bob'' world1))) = Inr [ann]
   \<and> customers (db (snd (updateUsername testPlatform aliceToken ''Bob'' world1))) ''Alice'' = None
   \<and> debtBookData (localStorage (snd (updateUsername testPlatform aliceToken ''Bob'' world1)))
         ''Alice'' = None
   \<and> fst (getCustomers testPlatform aliceToken
            (snd (updateUsername testPlatform aliceToken ''Bob'' world1))) = Inl Unauthorized"
proof -
  have h1: "sessionUser testPlatform world1 aliceToken = Some ''Alice''"
    by code_simp
  have h2: "\<forall>u\<in>set (users (db world1)).
         toLowerCase testPlatform (username u) \<noteq> toLowerCase testPlatform ''Bob''"
    by code_simp
  have h3: "''Bob'' \<noteq> []"
    by simp
  have h4: "btoa testPlatform ''Bob'' = Some ''Qm9i''"
    by code_simp
  have h5: "atob testPlatform ''Qm9i'' = Some ''Bob''"
    by code_simp
  have h6: "distinct (map username (users (db world1)))"
    by code_simp
  have h7: "atob testPlatform aliceToken = Some ''Alice''"
    by code_simp
  have h8: "fst (getCustomers testPlatform aliceToken world1) = Inr [ann]"
    by code_simp
  from updateUsername_moves_data [OF h1 h2 h3 h4 h5]
  obtain L s' where before: "getCustomers testPlatform aliceToken world1 = (Inr L, world1)"
    and run: "updateUsername testPlatform aliceToken ''Bob'' world1 = (Inr (''Qm9i'', ''Bob''), s')"
    and after: "getCustomers testPlatform ''Qm9i'' s' = (Inr L, s')"
    and gone: "customers (db s') ''Alice'' = None"
    and gone': "debtBookData (localStorage s') ''Alice'' = None"
    and stale: "distinct (map username (users (db world1))) \<longrightarrow>
                (\<forall>tk. atob testPlatform tk = Some ''Alice''
                   \<longrightarrow> getCustomers testPlatform tk s' = (Inl Unauthorized, s'))"
    by blast
  from before h8 have L: "L = [ann]"
    by simp
  from stale h6 h7 have old: "getCustomers testPlatform aliceToken s' = (Inl Unauthorized, s')"
    by blast
  from run have c1: "fst (updateUsername testPlatform aliceToken ''Bob'' world1) = Inr (''Qm9i'', ''Bob'')"
    and s': "snd (updateUsername testPlatform aliceToken ''Bob'' world1) = s'"
    by simp_all
  from after L have c2: "fst (getCustomers testPlatform ''Qm9i''
            (snd (updateUsername testPlatform aliceToken ''Bob'' world1))) = Inr [ann]"
    by (simp add: s')
  from gone have c3: "customers (db (snd (updateUsername testPlatform aliceToken ''Bob'' world1)))
      ''Alice'' = None"
    by (simp add: s')
  from gone' have c4: "debtBookData (localStorage (snd (updateUsername testPlatform aliceToken ''Bob'' world1)))
         ''Alice'' = None"
    by (simp add: s')
  from old have c5: "fst (getCustomers testPlatform aliceToken
            (snd (updateUsername testPlatform aliceToken ''Bob'' world1))) = Inl Unauthorized"
    by (simp add: s')
  have u: "users (db world1) = [alice]"
    by (simp add: world1_def)
  have n: "toLowerCase testPlatform (username alice) \<noteq> toLowerCase testPlatform ''Bob''"
    by code_simp
  from h1 u n h3 h4 h5 h6 h7 h8 c1 c2 c3 c4 c5 show ?thesis
    by (intro conjI)
qed

text \<open>
  The claim as stated fails at the empty new name. \<open>Alice\<close> is logged in, her list is
  \<open>[ann]\<close>, and the empty name matches no stored name; \<open>updateUsername\<close> succeeds and
  returns the token \<^verbatim>\<open>btoa("")\<close>, the empty string, but \<open>getCustomers\<close> with that token
  throws \<open>Unauthorized\<close>, because the empty name that \<open>getUsernameFromToken\<close> returns is
  falsy.
\<close>

theorem updateUsername_empty_counterexample:
  "sessionUser testPlatform world1 aliceToken = Some ''Alice''
   \<and> fst (getCustomers testPlatform aliceToken world1) = Inr [ann]
   \<and> users (db world1) = [alice]
   \<and> toLowerCase testPlatform (username alice) \<noteq> toLowerCase testPlatform []
   \<and> fst (updateUsername testPlatform aliceToken [] world1) = Inr ([], [])
   \<and> atob testPlatform [] = Some []
   \<and> fst (getCustomers testPlatform []
            (snd (updateUsername testPlatform aliceToken [] world1))) = Inl Unauthorized"
proof -
  have c1: "sessionUser testPlatform world1 aliceToken = Some ''Alice''"
    by code_simp
  have c2: "fst (getCustomers testPlatform aliceToken world1) = Inr [ann]"
    by code_simp
  have c3: "users (db world1) = [alice]"
    by (simp add: world1_def)
  have c4: "toLowerCase testPlatform (username alice) \<noteq> toLowerCase testPlatform []"
    by code_simp
  have c5: "fst (updateUsername testPlatform aliceToken [] world1) = Inr ([], [])"
    by code_simp
  have c6: "atob testPlatform [] = Some []"
    by code_simp
  have c7: "fst (getCustomers testPlatform []
            (snd (updateUsername testPlatform aliceToken [] world1))) = Inl Unauthorized"
    by code_simp
  from c1 c2 c3 c4 c5 c6 c7 show ?thesis
    by (intro conjI)
qed

section \<open>C3: Login\<close>



section \<open>C4: Toggling twice\<close>

text \<open>
  Claim C4. For a logged-in user whose list \<open>cs\<close> holds a customer with the given id (at
  position \<open>i\<close>) in whose sequence the transaction id occurs, \<open>toggleTransactionPaid\<close>
  succeeds twice in a row and the second call restores the in-memory database; where the
  persisted copy of the user's list agreed with the in-memory list before the first
  call (as it does in every state the operations produce from the empty store:
  \<open>reachable_session_has_list\<close>), the whole state, persisted data included, is as before. A single call leaves
  every transaction at its position, negates \<open>isPaid\<close> of those with the given id and
  changes no other field, and returns a transaction of the sequence with that id with
  \<open>isPaid\<close> negated.
\<close>

theorem toggleTransactionPaid_involution:
  assumes logged: "sessionUser E s token = Some un"
    and list: "customers (db s) un = Some cs"
    and present: "findIndex (\<lambda>c. cid c = customerId) cs = Some i"
    and tx: "transactionId \<in> tid ` set (transactions (cs ! i))"
  shows "\<exists>t' s1 t'' s2.
           toggleTransactionPaid E token customerId transactionId s = (Inr t', s1)
         \<and> toggleTransactionPaid E token customerId transactionId s1 = (Inr t'', s2)
         \<and> db s2 = db s
         \<and> (debtBookData (localStorage s) un = Some cs \<longrightarrow> s2 = s)
         \<and> customers (db s1) un =
             Some (cs[i := (cs ! i)\<lparr>transactions :=
                     map (\<lambda>t. if tid t = transactionId then t\<lparr>isPaid := \<not> isPaid t\<rparr> else t)
                       (transactions (cs ! i))\<rparr>])
         \<and> (\<exists>t\<in>set (transactions (cs ! i)).
               tid t = transactionId \<and> t' = t\<lparr>isPaid := \<not> isPaid t\<rparr>)"
proof -
  let ?f = "\<lambda>t. if tid t = transactionId then t\<lparr>isPaid := \<not> isPaid t\<rparr> else t"
  let ?ts = "transactions (cs ! i)"
  let ?c1 = "(cs ! i)\<lparr>transactions := map ?f ?ts\<rparr>"
  let ?cs1 = "cs[i := ?c1]"
  let ?s1 = "persistCustomers un (setCustomers un (Some ?cs1) s)"
  let ?s2 = "persistCustomers un (setCustomers un (Some cs) ?s1)"
  from findIndex_Some [OF present] have i: "i < length cs" and ci: "cid (cs ! i) = customerId"
    by simp_all
  from toggleMap_snd_present [OF tx, of None]
  obtain t where t: "t \<in> set ?ts" "tid t = transactionId"
    and last: "snd (toggleMap transactionId ?ts None) = Some (t\<lparr>isPaid := \<not> isPaid t\<rparr>)"
    by blast
  have tm: "toggleMap transactionId ?ts None = (map ?f ?ts, Some (t\<lparr>isPaid := \<not> isPaid t\<rparr>))"
    using toggleMap_fst [of transactionId ?ts None] last by (simp add: prod_eq_iff)
  have run1: "toggleTransactionPaid E token customerId transactionId s
                = (Inr (t\<lparr>isPaid := \<not> isPaid t\<rparr>), ?s1)"
    by (rule toggle_run [OF logged list present tm])
  have logged1: "sessionUser E ?s1 token = Some un"
    using logged by simp
  have list1: "customers (db ?s1) un = Some ?cs1"
    by simp
  have present1: "findIndex (\<lambda>c. cid c = customerId) ?cs1 = Some i"
    using present ci by (simp add: findIndex_update_cid)
  have ts1: "transactions (?cs1 ! i) = map ?f ?ts"
    using i by simp
  have tx1: "transactionId \<in> tid ` set (map ?f ?ts)"
    using tx toggle_ids [of transactionId ?ts] by (metis list.set_map)
  from toggleMap_snd_present [OF tx1, of None]
  obtain t1 where last1: "snd (toggleMap transactionId (map ?f ?ts) None)
                            = Some (t1\<lparr>isPaid := \<not> isPaid t1\<rparr>)"
    by blast
  have tm1: "toggleMap transactionId (transactions (?cs1 ! i)) None
               = (?ts, Some (t1\<lparr>isPaid := \<not> isPaid t1\<rparr>))"
    using toggleMap_fst [of transactionId "map ?f ?ts" None] last1
    by (simp only: ts1 toggle_twice_list prod_eq_iff fst_conv snd_conv)
  have restore: "?cs1[i := (?cs1 ! i)\<lparr>transactions := ?ts\<rparr>] = cs"
    using i by (simp add: list_update_same_conv)
  have run2: "toggleTransactionPaid E token customerId transactionId ?s1
                = (Inr (t1\<lparr>isPaid := \<not> isPaid t1\<rparr>), ?s2)"
    using toggle_run [OF logged1 list1 present1 tm1] by (simp only: restore)
  have db2: "db ?s2 = db s"
    using list by (simp add: setCustomers_def map_upd_triv)
  have same: "?s2 = s" if mirror: "debtBookData (localStorage s) un = Some cs"
  proof (rule persist_restores [OF list mirror])
    show "db (setCustomers un (Some cs) ?s1) = db s"
      using db2 by simp
    show "localStorage (setCustomers un (Some cs) ?s1)
            = (localStorage s)\<lparr>debtBookData := (debtBookData (localStorage s))(un := Some ?cs1)\<rparr>"
      by (simp add: persistCustomers_def)
  qed
  show ?thesis
    apply (rule exI [of _ "t\<lparr>isPaid := \<not> isPaid t\<rparr>"])
    apply (rule exI [of _ ?s1])
    apply (rule exI [of _ "t1\<lparr>isPaid := \<not> isPaid t1\<rparr>"])
    apply (rule exI [of _ ?s2])
    apply (intro conjI impI)
         apply (rule run1)
        apply (rule run2)
       apply (rule db2)
      apply (erule same)
     apply (rule list1)
    using t apply blast
    done
qed

theorem toggleTransactionPaid_involution_witness:
  "sessionUser testPlatform world1 aliceToken = Some ''Alice''
   \<and> customers (db world1) ''Alice'' = Some [ann]
   \<and> findIndex (\<lambda>c. cid c = ''1700000000000'') [ann] = Some 0
   \<and> ''1700000000001'' \<in> tid ` set (transactions ([ann] ! 0))
   \<and> debtBookData (localStorage world1) ''Alice'' = Some [ann]
   \<and> fst (toggleTransactionPaid testPlatform aliceToken ''1700000000000'' ''1700000000001'' world1)
       = Inr (rice\<lparr>isPaid := False\<rparr>)
   \<and> snd (toggleTransactionPaid testPlatform aliceToken ''1700000000000'' ''1700000000001''
         (snd (toggleTransactionPaid testPlatform aliceToken ''1700000000000'' ''1700000000001'' world1)))
       = world1"
proof -
  have h1: "sessionUser testPlatform world1 aliceToken = Some ''Alice''"
    by code_simp
  have h2: "customers (db world1) ''Alice'' = Some [ann]"
    by code_simp
  have h3: "findIndex (\<lambda>c. cid c = ''1700000000000'') [ann] = Some 0"
    by code_simp
  have h4: "''1700000000001'' \<in> tid ` set (transactions ([ann] ! 0))"
    by (simp add: ann_def rice_def)
  have h5: "debtBookData (localStorage world1) ''Alice'' = Some [ann]"
    by code_simp
  from toggleTransactionPaid_involution [OF h1 h2 h3 h4]
  obtain t' s1 t'' s2 where
    run1: "toggleTransactionPaid testPlatform aliceToken ''1700000000000'' ''1700000000001'' world1
             = (Inr t', s1)"
    and run2: "toggleTransactionPaid testPlatform aliceToken ''1700000000000'' ''1700000000001'' s1
             = (Inr t'', s2)"
    and same: "debtBookData (localStorage world1) ''Alice'' = Some [ann] \<longrightarrow> s2 = world1"
    and ret: "\<exists>t\<in>set (transactions ([ann] ! 0)).
                tid t = ''1700000000001'' \<and> t' = t\<lparr>isPaid := \<not> isPaid t\<rparr>"
    by blast
  from ret have t': "t' = rice\<lparr>isPaid := False\<rparr>"
    by (simp add: ann_def rice_def)
  from same h5 have "s2 = world1"
    by simp
  with run1 run2 t' h1 h2 h3 h4 h5 show ?thesis
    by simp
qed

section \<open>C5: New transactions come first\<close>

text \<open>
  Claim C5. For a logged-in user (the token resolves to the non-empty name \<open>un\<close>) whose
  list \<open>cs\<close> (in the states the operations produce from the empty store every session has
  one: \<open>reachable_session_has_list\<close>) holds a customer with the given id (\<open>i\<close> is the position \<^verbatim>\<open>findIndex\<close> finds, the
  first with that id) and a date the platform can convert, \<open>addTransaction\<close> returns the
  new transaction \<open>t\<close>, and afterwards the customer at position \<open>i\<close> holds \<open>t\<close> followed by
  its former transactions in their order, in memory, in \<open>getCustomers\<close> and in the
  persisted copy; every other customer is unchanged. A customer that held \<open>[T1]\<close> holds
  \<open>[t, T1]\<close>.
\<close>

theorem addTransaction_prepends:
  assumes logged: "sessionUser E s token = Some un"
    and list: "customers (db s) un = Some cs"
    and present: "findIndex (\<lambda>c. cid c = customerId) cs = Some i"
    and valid: "toISOString E (txDate d @ ''T00:00:00'') = Some isoDate"
  shows "\<exists>t s'. addTransaction E now token customerId d s = (Inr t, s')
           \<and> t = \<lparr> tid = toString now, productName = txProductName d, quantity = txQuantity d,
                   amount = txPrice d, isPaid = False, date = isoDate \<rparr>
           \<and> getCustomers E token s'
               = (Inr (cs[i := (cs ! i)\<lparr>transactions := t # transactions (cs ! i)\<rparr>]), s')
           \<and> debtBookData (localStorage s') un
               = Some (cs[i := (cs ! i)\<lparr>transactions := t # transactions (cs ! i)\<rparr>])
           \<and> (\<forall>T1. transactions (cs ! i) = [T1] \<longrightarrow>
                 (\<exists>cs'. fst (getCustomers E token s') = Inr cs' \<and> transactions (cs' ! i) = [t, T1]))"
proof -
  let ?t = "\<lparr> tid = toString now, productName = txProductName d, quantity = txQuantity d,
               amount = txPrice d, isPaid = False, date = isoDate \<rparr>"
  let ?cs' = "cs[i := (cs ! i)\<lparr>transactions := ?t # transactions (cs ! i)\<rparr>]"
  let ?s' = "persistCustomers un (setCustomers un (Some ?cs') s)"
  from findIndex_Some [OF present] have i: "i < length cs" by simp
  have run: "addTransaction E now token customerId d s = (Inr ?t, ?s')"
    using logged list present valid by (simp add: addTransaction_def Let_def)
  have get: "getCustomers E token ?s' = (Inr ?cs', ?s')"
    using logged by (simp add: getCustomers_def)
  have stored: "debtBookData (localStorage ?s') un = Some ?cs'"
    by (simp add: data_persistCustomers)
  have head: "transactions (?cs' ! i) = [?t, T1]" if "transactions (cs ! i) = [T1]" for T1
    using i that by simp
  have one: "\<forall>T1. transactions (cs ! i) = [T1] \<longrightarrow>
      (\<exists>cs'. fst (getCustomers E token ?s') = Inr cs' \<and> transactions (cs' ! i) = [?t, T1])"
  proof (intro allI impI)
    fix T1
    assume a: "transactions (cs ! i) = [T1]"
    show "\<exists>cs'. fst (getCustomers E token ?s') = Inr cs' \<and> transactions (cs' ! i) = [?t, T1]"
    proof (intro exI conjI)
      show "fst (getCustomers E token ?s') = Inr ?cs'"
        by (simp only: get fst_conv)
      show "transactions (?cs' ! i) = [?t, T1]"
        by (rule head [OF a])
    qed
  qed
  show ?thesis
    apply (rule exI [of _ ?t])
    apply (rule exI [of _ ?s'])
    apply (intro conjI)
        apply (rule run)
       apply (rule refl)
      apply (rule get)
     apply (rule stored)
    apply (rule one)
    done
qed

theorem addTransaction_prepends_witness:
  "sessionUser testPlatform world1 aliceToken = Some ''Alice''
   \<and> customers (db world1) ''Alice'' = Some [ann]
   \<and> findIndex (\<lambda>c. cid c = ''1700000000000'') [ann] = Some 0
   \<and> toISOString testPlatform (txDate tea @ ''T00:00:00'') = Some ''2024-01-06T00:00:00.000Z''
   \<and> (\<exists>cs'. fst (getCustomers testPlatform aliceToken
                  (snd (addTransaction testPlatform 1700000000002 aliceToken ''1700000000000'' tea world1)))
               = Inr cs'
            \<and> map tid (transactions (cs' ! 0)) = [''1700000000002'', ''1700000000001''])"
proof -
  have h1: "sessionUser testPlatform world1 aliceToken = Some ''Alice''"
    by code_simp
  have h2: "customers (db world1) ''Alice'' = Some [ann]"
    by code_simp
  have h3: "findIndex (\<lambda>c. cid c = ''1700000000000'') [ann] = Some 0"
    by code_simp
  have h4: "toISOString testPlatform (txDate tea @ ''T00:00:00'') = Some ''2024-01-06T00:00:00.000Z''"
    by code_simp
  have now: "toString 1700000000002 = ''1700000000002''"
    by (simp add: toString.simps)
  have h5: "transactions ([ann] ! 0) = [rice]"
    by (simp add: ann_def)
  from addTransaction_prepends [OF h1 h2 h3 h4, of 1700000000002]
  obtain t s' where run: "addTransaction testPlatform 1700000000002 aliceToken ''1700000000000'' tea world1 = (Inr t, s')"
    and t: "tid t = toString 1700000000002"
    and one: "\<forall>T1. transactions ([ann] ! 0) = [T1] \<longrightarrow>
               (\<exists>cs'. fst (getCustomers testPlatform aliceToken s') = Inr cs'
                      \<and> transactions (cs' ! 0) = [t, T1])"
    by auto
  from one h5 obtain cs' where "fst (getCustomers testPlatform aliceToken s') = Inr cs'"
    and "transactions (cs' ! 0) = [t, rice]"
    by blast
  then have "\<exists>cs'. fst (getCustomers testPlatform aliceToken
                  (snd (addTransaction testPlatform 1700000000002 aliceToken ''1700000000000'' tea world1)))
               = Inr cs'
            \<and> map tid (transactions (cs' ! 0)) = [''1700000000002'', ''1700000000001'']"
    using run t now by (auto simp: rice_def)
  with h1 h2 h3 h4 show ?thesis
    by blast
qed

section \<open>C6: Recovery and password reset\<close>



section \<open>C7: Deleting a customer\<close>

text \<open>
  Claim C7. For a logged-in user with customer list \<open>cs\<close> (in the states the operations
  produce from the empty store every session has one: \<open>reachable_session_has_list\<close>),
  \<open>deleteCustomer\<close> succeeds for every id. Afterwards \<open>getCustomers\<close> returns the customers of \<open>cs\<close> with another id, in
  their order, so none with the deleted id is listed, and every operation that addresses
  a customer by that id (rename, add, toggle or delete a transaction) fails with
  \<open>Customer not found\<close>: its transactions cannot be reached. For an id absent from \<open>cs\<close>
  the call also succeeds and the list is unchanged (the whole state, where the persisted
  copy agreed with the list). \<open>deleteTransaction\<close>, by contrast, fails with
  \<open>Transaction not found\<close> for a transaction id absent from a customer that exists.
\<close>

theorem deleteCustomer_removes:
  assumes logged: "sessionUser E s token = Some un"
    and list: "customers (db s) un = Some cs"
  shows "\<exists>s'. deleteCustomer E token customerId s = (Inr (), s')
           \<and> getCustomers E token s' = (Inr (filter (\<lambda>c. cid c \<noteq> customerId) cs), s')
           \<and> customerId \<notin> cid ` set (filter (\<lambda>c. cid c \<noteq> customerId) cs)
           \<and> renameCustomer E token customerId newName s' = (Inl CustomerNotFound, s')
           \<and> addTransaction E now token customerId d s' = (Inl CustomerNotFound, s')
           \<and> toggleTransactionPaid E token customerId transactionId s' = (Inl CustomerNotFound, s')
           \<and> deleteTransaction E token customerId transactionId s' = (Inl CustomerNotFound, s')
           \<and> (customerId \<notin> cid ` set cs \<longrightarrow>
                 getCustomers E token s' = (Inr cs, s') \<and> db s' = db s
                 \<and> (debtBookData (localStorage s) un = Some cs \<longrightarrow> s' = s))
           \<and> (\<forall>otherId i. findIndex (\<lambda>c. cid c = otherId) cs = Some i
                   \<and> transactionId \<notin> tid ` set (transactions (cs ! i))
                 \<longrightarrow> deleteTransaction E token otherId transactionId s
                       = (Inl TransactionNotFound, s))"
proof -
  let ?cs' = "filter (\<lambda>c. cid c \<noteq> customerId) cs"
  let ?s' = "persistCustomers un (setCustomers un (Some ?cs') s)"
  have run: "deleteCustomer E token customerId s = (Inr (), ?s')"
    using logged list by (simp add: deleteCustomer_def)
  have logged': "sessionUser E ?s' token = Some un"
    using logged by simp
  have list': "customers (db ?s') un = Some ?cs'"
    by simp
  have get: "getCustomers E token ?s' = (Inr ?cs', ?s')"
    using logged' list' by (simp only: getCustomers_def option.case)
  have gone: "customerId \<notin> cid ` set ?cs'"
    by auto
  have missing: "findIndex (\<lambda>c. cid c = customerId) ?cs' = None"
    by (rule findIndex_filtered)
  have ren: "renameCustomer E token customerId newName ?s' = (Inl CustomerNotFound, ?s')"
    using logged' list' missing by (simp only: renameCustomer_def option.case)
  have add: "addTransaction E now token customerId d ?s' = (Inl CustomerNotFound, ?s')"
    using logged' list' missing by (simp only: addTransaction_def option.case)
  have tog: "toggleTransactionPaid E token customerId transactionId ?s' = (Inl CustomerNotFound, ?s')"
    using logged' list' missing by (simp only: toggleTransactionPaid_def option.case)
  have del: "deleteTransaction E token customerId transactionId ?s' = (Inl CustomerNotFound, ?s')"
    using logged' list' missing by (simp only: deleteTransaction_def option.case)
  have absent: "getCustomers E token ?s' = (Inr cs, ?s') \<and> db ?s' = db s
                  \<and> (debtBookData (localStorage s) un = Some cs \<longrightarrow> ?s' = s)"
    if a: "customerId \<notin> cid ` set cs"
  proof -
    from a have same: "?cs' = cs"
      by (auto simp: filter_id_conv)
    have d: "db (setCustomers un (Some cs) s) = db s"
      using list by (simp add: setCustomers_def map_upd_triv)
    have "persistCustomers un (setCustomers un (Some cs) s) = s"
      if m: "debtBookData (localStorage s) un = Some cs"
      by (rule persist_restores [OF list m d, of "Some cs"]) (simp add: m map_upd_triv)
    with get d show ?thesis
      by (simp add: same)
  qed
  have other: "deleteTransaction E token otherId transactionId s = (Inl TransactionNotFound, s)"
    if "findIndex (\<lambda>c. cid c = otherId) cs = Some i"
      and "transactionId \<notin> tid ` set (transactions (cs ! i))" for otherId i
  proof -
    from that(2) have "findIndex (\<lambda>t. tid t = transactionId) (transactions (cs ! i)) = None"
      by (auto simp: findIndex_None)
    with logged list that(1) show ?thesis
      by (simp add: deleteTransaction_def)
  qed
  show ?thesis
    apply (rule exI [of _ ?s'])
    apply (intro conjI allI impI)
                apply (rule run)
               apply (rule get)
              apply (rule gone)
             apply (rule ren)
            apply (rule add)
           apply (rule tog)
          apply (rule del)
    using absent apply blast
    using absent apply blast
    using absent apply blast
    using other apply blast
    done
qed

theorem deleteCustomer_removes_witness:
  "sessionUser testPlatform world1 aliceToken = Some ''Alice''
   \<and> customers (db world1) ''Alice'' = Some [ann]
   \<and> ''42'' \<notin> cid ` set [ann]
   \<and> debtBookData (localStorage world1) ''Alice'' = Some [ann]
   \<and> findIndex (\<lambda>c. cid c = ''1700000000000'') [ann] = Some 0
   \<and> ''99'' \<notin> tid ` set (transactions ([ann] ! 0))
   \<and> fst (getCustomers testPlatform aliceToken
            (snd (deleteCustomer testPlatform aliceToken ''1700000000000'' world1))) = Inr []
   \<and> deleteCustomer testPlatform aliceToken ''42'' world1 = (Inr (), world1)
   \<and> deleteTransaction testPlatform aliceToken ''1700000000000'' ''99'' world1
       = (Inl TransactionNotFound, world1)"
proof -
  have h1: "sessionUser testPlatform world1 aliceToken = Some ''Alice''"
    by code_simp
  have h2: "customers (db world1) ''Alice'' = Some [ann]"
    by code_simp
  have h3: "''42'' \<notin> cid ` set [ann]"
    by (simp add: ann_def)
  have h4: "debtBookData (localStorage world1) ''Alice'' = Some [ann]"
    by code_simp
  have h5: "findIndex (\<lambda>c. cid c = ''1700000000000'') [ann] = Some 0"
    by code_simp
  have h6: "''99'' \<notin> tid ` set (transactions ([ann] ! 0))"
    by (simp add: ann_def rice_def)
  have f: "filter (\<lambda>c. cid c \<noteq> ''1700000000000'') [ann] = []"
    by (simp add: ann_def)
  from deleteCustomer_removes [OF h1 h2, of "''1700000000000''"]
  obtain s' where "deleteCustomer testPlatform aliceToken ''1700000000000'' world1 = (Inr (), s')"
    and "getCustomers testPlatform aliceToken s'
           = (Inr (filter (\<lambda>c. cid c \<noteq> ''1700000000000'') [ann]), s')"
    by blast
  then have present: "fst (getCustomers testPlatform aliceToken
            (snd (deleteCustomer testPlatform aliceToken ''1700000000000'' world1))) = Inr []"
    by (simp only: f fst_conv snd_conv)
  from deleteCustomer_removes [OF h1 h2, of "''42''" _ _ _ "''99''"]
  obtain s'' where run: "deleteCustomer testPlatform aliceToken ''42'' world1 = (Inr (), s'')"
    and noop: "''42'' \<notin> cid ` set [ann] \<longrightarrow>
                 getCustomers testPlatform aliceToken s'' = (Inr [ann], s'') \<and> db s'' = db world1
                 \<and> (debtBookData (localStorage world1) ''Alice'' = Some [ann] \<longrightarrow> s'' = world1)"
    and other: "\<forall>otherId i. findIndex (\<lambda>c. cid c = otherId) [ann] = Some i
                   \<and> ''99'' \<notin> tid ` set (transactions ([ann] ! i))
                 \<longrightarrow> deleteTransaction testPlatform aliceToken otherId ''99'' world1
                       = (Inl TransactionNotFound, world1)"
    by blast
  from noop h3 h4 have "s'' = world1"
    by blast
  with run have absent: "deleteCustomer testPlatform aliceToken ''42'' world1 = (Inr (), world1)"
    by simp
  from other h5 h6
  have tx: "deleteTransaction testPlatform aliceToken ''1700000000000'' ''99'' world1
              = (Inl TransactionNotFound, world1)"
    by blast
  from h1 h2 h3 h4 h5 h6 present absent tx show ?thesis
    by blast
qed

section \<open>C8: Failing calls change nothing\<close>

text \<open>
  Claim C8. Whenever one of the thirteen operations of the API throws an \<^verbatim>\<open>Error\<close> with a
  message (the errors of the list: user not found, incorrect password, username taken,
  recovery answer incorrect, invalid session or unauthorized, customer not found,
  transaction not found), the state after the call, in-memory database and persisted
  data, is the state before it. (The platform exceptions are not in that list; of them,
  only \<^verbatim>\<open>btoa\<close> throwing in \<open>register\<close> and \<open>updateUsername\<close> comes after the writes:
  \<open>register_unencodable_name\<close>.)
\<close>

theorem errors_are_atomic:
  "(\<forall>m. fst (login E u1 p1 s) = Inl (Error m) \<longrightarrow> snd (login E u1 p1 s) = s)
   \<and> (\<forall>m. fst (register E u2 p2 q2 a2 s) = Inl (Error m) \<longrightarrow> snd (register E u2 p2 q2 a2 s) = s)
   \<and> (\<forall>m. fst (findUserForRecovery E u3 s) = Inl (Error m) \<longrightarrow> snd (findUserForRecovery E u3 s) = s)
   \<and> (\<forall>m. fst (verifyRecoveryAnswer E u4 a4 s) = Inl (Error m)
          \<longrightarrow> snd (verifyRecoveryAnswer E u4 a4 s) = s)
   \<and> (\<forall>m. fst (resetPassword E u5 p5 s) = Inl (Error m) \<longrightarrow> snd (resetPassword E u5 p5 s) = s)
   \<and> (\<forall>m. fst (updateUsername E t6 u6 s) = Inl (Error m) \<longrightarrow> snd (updateUsername E t6 u6 s) = s)
   \<and> (\<forall>m. fst (getCustomers E t7 s) = Inl (Error m) \<longrightarrow> snd (getCustomers E t7 s) = s)
   \<and> (\<forall>m. fst (addCustomer E n8 t8 c8 s) = Inl (Error m) \<longrightarrow> snd (addCustomer E n8 t8 c8 s) = s)
   \<and> (\<forall>m. fst (renameCustomer E t9 c9 n9 s) = Inl (Error m) \<longrightarrow> snd (renameCustomer E t9 c9 n9 s) = s)
   \<and> (\<forall>m. fst (deleteCustomer E t10 c10 s) = Inl (Error m) \<longrightarrow> snd (deleteCustomer E t10 c10 s) = s)
   \<and> (\<forall>m. fst (addTransaction E n11 t11 c11 d11 s) = Inl (Error m)
          \<longrightarrow> snd (addTransaction E n11 t11 c11 d11 s) = s)
   \<and> (\<forall>m. fst (toggleTransactionPaid E t12 c12 x12 s) = Inl (Error m)
          \<longrightarrow> snd (toggleTransactionPaid E t12 c12 x12 s) = s)
   \<and> (\<forall>m. fst (deleteTransaction E t13 c13 x13 s) = Inl (Error m)
          \<longrightarrow> snd (deleteTransaction E t13 c13 x13 s) = s)"
  by (intro conjI allI impI)
    (erule login_atomic register_atomic findUserForRecovery_atomic verifyRecoveryAnswer_atomic
       resetPassword_atomic updateUsername_atomic getCustomers_atomic addCustomer_atomic
       renameCustomer_atomic deleteCustomer_atomic addTransaction_atomic
       toggleTransactionPaid_atomic deleteTransaction_atomic)+

theorem errors_are_atomic_witness:
  "login testPlatform ''Bob'' ''pw1'' world1 = (Inl UserNotFound, world1)
   \<and> register testPlatform ''ALICE'' ''pw2'' ''Q?'' ''a'' world1 = (Inl UsernameTaken, world1)
   \<and> findUserForRecovery testPlatform ''Bob'' world1 = (Inl UserNotFound, world1)
   \<and> verifyRecoveryAnswer testPlatform ''Alice'' ''Tom'' world1 = (Inl RecoveryAnswerIncorrect, world1)
   \<and> resetPassword testPlatform ''Bob'' ''pw2'' world1 = (Inl UserNotFound, world1)
   \<and> updateUsername testPlatform aliceToken ''aLiCe'' world1 = (Inl UsernameTaken_update, world1)
   \<and> getCustomers testPlatform ''bad!'' world1 = (Inl Unauthorized, world1)
   \<and> addCustomer testPlatform 5 ''Ym9i'' ''Zed'' world1 = (Inl Unauthorized, world1)
   \<and> renameCustomer testPlatform aliceToken ''42'' ''Zed'' world1 = (Inl CustomerNotFound, world1)
   \<and> deleteCustomer testPlatform [] ''42'' world1 = (Inl Unauthorized, world1)
   \<and> addTransaction testPlatform 5 aliceToken ''42'' tea world1 = (Inl CustomerNotFound, world1)
   \<and> toggleTransactionPaid testPlatform aliceToken ''1700000000000'' ''99'' world1 = (Inl TransactionNotFound, world1)
   \<and> deleteTransaction testPlatform aliceToken ''1700000000000'' ''99'' world1 = (Inl TransactionNotFound, world1)"
proof -
  note a = errors_are_atomic [where E = testPlatform and s = world1
    and ?u1.0 = "''Bob''" and ?p1.0 = "''pw1''"
    and ?u2.0 = "''ALICE''" and ?p2.0 = "''pw2''" and ?q2.0 = "''Q?''" and ?a2.0 = "''a''"
    and ?u3.0 = "''Bob''"
    and ?u4.0 = "''Alice''" and ?a4.0 = "''Tom''"
    and ?u5.0 = "''Bob''" and ?p5.0 = "''pw2''"
    and ?t6.0 = aliceToken and ?u6.0 = "''aLiCe''"
    and ?t7.0 = "''bad!''"
    and ?n8.0 = 5 and ?t8.0 = "''Ym9i''" and ?c8.0 = "''Zed''"
    and ?t9.0 = aliceToken and ?c9.0 = "''42''" and ?n9.0 = "''Zed''"
    and ?t10.0 = "[]" and ?c10.0 = "''42''"
    and ?n11.0 = 5 and ?t11.0 = aliceToken and ?c11.0 = "''42''" and ?d11.0 = tea
    and ?t12.0 = aliceToken and ?c12.0 = "''1700000000000''" and ?x12.0 = "''99''"
    and ?t13.0 = aliceToken and ?c13.0 = "''1700000000000''" and ?x13.0 = "''99''"]
  have f1: "fst (login testPlatform ''Bob'' ''pw1'' world1) = Inl UserNotFound"
    by code_simp
  from a f1 have r1: "login testPlatform ''Bob'' ''pw1'' world1 = (Inl UserNotFound, world1)"
    by (simp add: prod_eq_iff)
  have f2: "fst (register testPlatform ''ALICE'' ''pw2'' ''Q?'' ''a'' world1) = Inl UsernameTaken"
    by code_simp
  from a f2 have r2: "register testPlatform ''ALICE'' ''pw2'' ''Q?'' ''a'' world1 = (Inl UsernameTaken, world1)"
    by (simp add: prod_eq_iff)
  have f3: "fst (findUserForRecovery testPlatform ''Bob'' world1) = Inl UserNotFound"
    by code_simp
  from a f3 have r3: "findUserForRecovery testPlatform ''Bob'' world1 = (Inl UserNotFound, world1)"
    by (simp add: prod_eq_iff)
  have f4: "fst (verifyRecoveryAnswer testPlatform ''Alice'' ''Tom'' world1) = Inl RecoveryAnswerIncorrect"
    by code_simp
  from a f4 have r4: "verifyRecoveryAnswer testPlatform ''Alice'' ''Tom'' world1 = (Inl RecoveryAnswerIncorrect, world1)"
    by (simp add: prod_eq_iff)
  have f5: "fst (resetPassword testPlatform ''Bob'' ''pw2'' world1) = Inl UserNotFound"
    by code_simp
  from a f5 have r5: "resetPassword testPlatform ''Bob'' ''pw2'' world1 = (Inl UserNotFound, world1)"
    by (simp add: prod_eq_iff)
  have f6: "fst (updateUsername testPlatform aliceToken ''aLiCe'' world1) = Inl UsernameTaken_update"
    by code_simp
  from a f6 have r6: "updateUsername testPlatform aliceToken ''aLiCe'' world1 = (Inl UsernameTaken_update, world1)"
    by (simp add: prod_eq_iff)
  have f7: "fst (getCustomers testPlatform ''bad!'' world1) = Inl Unauthorized"
    by code_simp
  from a f7 have r7: "getCustomers testPlatform ''bad!'' world1 = (Inl Unauthorized, world1)"
    by (simp add: prod_eq_iff)
  have f8: "fst (addCustomer testPlatform 5 ''Ym9i'' ''Zed'' world1) = Inl Unauthorized"
    by code_simp
  from a f8 have r8: "addCustomer testPlatform 5 ''Ym9i'' ''Zed'' world1 = (Inl Unauthorized, world1)"
    by (simp add: prod_eq_iff)
  have f9: "fst (renameCustomer testPlatform aliceToken ''42'' ''Zed'' world1) = Inl CustomerNotFound"
    by code_simp
  from a f9 have r9: "renameCustomer testPlatform aliceToken ''42'' ''Zed'' world1 = (Inl CustomerNotFound, world1)"
    by (simp add: prod_eq_iff)
  have f10: "fst (deleteCustomer testPlatform [] ''42'' world1) = Inl Unauthorized"
    by code_simp
  from a f10 have r10: "deleteCustomer testPlatform [] ''42'' world1 = (Inl Unauthorized, world1)"
    by (simp add: prod_eq_iff)
  have f11: "fst (addTransaction testPlatform 5 aliceToken ''42'' tea world1) = Inl CustomerNotFound"
    by code_simp
  from a f11 have r11: "addTransaction testPlatform 5 aliceToken ''42'' tea world1 = (Inl CustomerNotFound, world1)"
    by (simp add: prod_eq_iff)
  have f12: "fst (toggleTransactionPaid testPlatform aliceToken ''1700000000000'' ''99'' world1) = Inl TransactionNotFound"
    by code_simp
  from a f12 have r12: "toggleTransactionPaid testPlatform aliceToken ''1700000000000'' ''99'' world1 = (Inl TransactionNotFound, world1)"
    by (simp add: prod_eq_iff)
  have f13: "fst (deleteTransaction testPlatform aliceToken ''1700000000000'' ''99'' world1) = Inl TransactionNotFound"
    by code_simp
  from a f13 have r13: "deleteTransaction testPlatform aliceToken ''1700000000000'' ''99'' world1 = (Inl TransactionNotFound, world1)"
    by (simp add: prod_eq_iff)
  from r1 r2 r3 r4 r5 r6 r7 r8 r9 r10 r11 r12 r13 show ?thesis
    by (intro conjI)
qed

section \<open>C9: Transaction ids\<close>

text \<open>
  Claim C9, as amended. Transaction ids are unique within every customer in every state
  that the operations produce from the empty store (or from any state with unique ids),
  provided no \<open>addTransaction\<close> call reads a clock value whose decimal string is already
  an id in the sequence of the customer it adds to; such an \<open>addTransaction\<close> call
  returns a transaction whose id differs from all ids of that sequence. (Two calls that
  read the same clock value produce the same id: see the counterexample.)
\<close>

theorem transaction_ids_unique:
  "txIdsUnique emptyWorld
   \<and> (txIdsUnique s \<and> clocksFresh E calls s \<longrightarrow> txIdsUnique (run E calls s))
   \<and> (clocksFresh E calls0 emptyWorld \<longrightarrow> txIdsUnique (run E calls0 emptyWorld))
   \<and> (\<forall>un cs i isoDate. sessionUser E s t = Some un \<and> customers (db s) un = Some cs
          \<and> findIndex (\<lambda>x. cid x = c) cs = Some i
          \<and> toISOString E (txDate d @ ''T00:00:00'') = Some isoDate
          \<and> toString now \<notin> set (map tid (transactions (cs ! i)))
        \<longrightarrow> (\<exists>tx s'. addTransaction E now t c d s = (Inr tx, s')
               \<and> tid tx \<notin> set (map tid (transactions (cs ! i)))))"
proof -
  have e: "txIdsUnique emptyWorld"
    by (simp add: emptyWorld_def)
  have r: "txIdsUnique (run E calls s)" if "txIdsUnique s \<and> clocksFresh E calls s"
    using that unique_run [of s E calls] by blast
  have r0: "txIdsUnique (run E calls0 emptyWorld)" if "clocksFresh E calls0 emptyWorld"
    using that e unique_run [of emptyWorld E calls0] by blast
  have a: "\<exists>tx s'. addTransaction E now t c d s = (Inr tx, s')
               \<and> tid tx \<notin> set (map tid (transactions (cs ! i)))"
    if h: "sessionUser E s t = Some un \<and> customers (db s) un = Some cs
          \<and> findIndex (\<lambda>x. cid x = c) cs = Some i
          \<and> toISOString E (txDate d @ ''T00:00:00'') = Some isoDate
          \<and> toString now \<notin> set (map tid (transactions (cs ! i)))" for un cs i isoDate
  proof -
    from h addTransaction_run [of E s t un cs c i d isoDate now "toString now"]
    have "addTransaction E now t c d s =
           (Inr \<lparr> tid = toString now, productName = txProductName d, quantity = txQuantity d,
                  amount = txPrice d, isPaid = False, date = isoDate \<rparr>,
            persistCustomers un (setCustomers un
              (Some (cs[i := (cs ! i)\<lparr>transactions :=
                 \<lparr> tid = toString now, productName = txProductName d, quantity = txQuantity d,
                   amount = txPrice d, isPaid = False, date = isoDate \<rparr> # transactions (cs ! i)\<rparr>])) s))"
      by simp
    with h show ?thesis
      by (intro exI conjI) (assumption, simp)
  qed
  have c2: "txIdsUnique s \<and> clocksFresh E calls s \<longrightarrow> txIdsUnique (run E calls s)"
    by (rule impI) (rule r)
  have c3: "clocksFresh E calls0 emptyWorld \<longrightarrow> txIdsUnique (run E calls0 emptyWorld)"
    by (rule impI) (rule r0)
  have c4: "\<forall>un cs i isoDate. sessionUser E s t = Some un \<and> customers (db s) un = Some cs
          \<and> findIndex (\<lambda>x. cid x = c) cs = Some i
          \<and> toISOString E (txDate d @ ''T00:00:00'') = Some isoDate
          \<and> toString now \<notin> set (map tid (transactions (cs ! i)))
        \<longrightarrow> (\<exists>tx s'. addTransaction E now t c d s = (Inr tx, s')
               \<and> tid tx \<notin> set (map tid (transactions (cs ! i))))"
    by (intro allI impI) (erule a)
  show ?thesis
    by (rule conjI [OF e conjI [OF c2 conjI [OF c3 c4]]])
qed

theorem transaction_ids_unique_witness:
  "clocksFresh testPlatform history emptyWorld
   \<and> run testPlatform history emptyWorld = world1
   \<and> customers (db world1) ''Alice'' = Some [ann]
   \<and> distinct (map tid (transactions ann))
   \<and> clocksFresh testPlatform nextCalls world1
   \<and> customers (db (run testPlatform nextCalls world1)) ''Alice''
       = Some [ann\<lparr>transactions := [tea2\<lparr>isPaid := True\<rparr>, rice]\<rparr>]
   \<and> distinct (map tid (transactions (ann\<lparr>transactions := [tea2\<lparr>isPaid := True\<rparr>, rice]\<rparr>)))
   \<and> sessionUser testPlatform world1 aliceToken = Some ''Alice''
   \<and> findIndex (\<lambda>x. cid x = ''1700000000000'') [ann] = Some 0
   \<and> toISOString testPlatform (txDate tea @ ''T00:00:00'') = Some ''2024-01-06T00:00:00.000Z''
   \<and> toString 1700000000002 \<notin> set (map tid (transactions ([ann] ! 0)))
   \<and> (\<exists>tx s'. addTransaction testPlatform 1700000000002 aliceToken ''1700000000000'' tea world1
                  = (Inr tx, s')
          \<and> tid tx \<notin> set (map tid (transactions ([ann] ! 0))))"
proof -
  let ?P = testPlatform
  let ?X = "ann\<lparr>transactions := [tea2\<lparr>isPaid := True\<rparr>, rice]\<rparr>"
  note a = transaction_ids_unique [of world1 testPlatform nextCalls history aliceToken
      "''1700000000000''" tea 1700000000002]
  from world1_history have h0: "clocksFresh ?P history emptyWorld"
    and w: "run ?P history emptyWorld = world1"
    by simp_all
  from a h0 have "txIdsUnique (run ?P history emptyWorld)"
    by (elim conjE) (erule (1) mp)
  then have c1: "txIdsUnique world1"
    by (simp only: w)
  have h1: "sessionUser ?P world1 aliceToken = Some ''Alice''"
    by code_simp
  have h2: "customers (db world1) ''Alice'' = Some [ann]"
    by code_simp
  from c1 h2 have d1: "distinct (map tid (transactions ann))"
    by fastforce
  have h3: "findIndex (\<lambda>x. cid x = ''1700000000000'') [ann] = Some 0"
    by code_simp
  have h4: "toISOString ?P (txDate tea @ ''T00:00:00'') = Some ''2024-01-06T00:00:00.000Z''"
    by code_simp
  have h5: "toString 1700000000002 \<notin> set (map tid (transactions ([ann] ! 0)))"
    by (simp add: clock2 ann_def rice_def)
  have "clockFresh ?P (AddTransaction 1700000000002 aliceToken ''1700000000000'' tea) world1"
    using h5 by (simp only: clockFresh.simps h1 h2 h3 option.case simp_thms)
  then have h6: "clocksFresh ?P nextCalls world1"
    by (simp only: nextCalls_def clocksFresh.simps clockFresh.simps simp_thms)
  from a c1 h6 have c2: "txIdsUnique (run ?P nextCalls world1)"
    by (elim conjE) (erule mp, erule (1) conjI)
  have t: "\<lparr> tid = ''1700000000002'', productName = txProductName tea, quantity = txQuantity tea,
             amount = txPrice tea, isPaid = False, date = ''2024-01-06T00:00:00.000Z'' \<rparr> = tea2"
    by (simp add: tea_def tea2_def)
  let ?s1 = "persistCustomers ''Alice''
               (setCustomers ''Alice'' (Some [ann\<lparr>transactions := [tea2, rice]\<rparr>]) world1)"
  have s1: "step ?P (AddTransaction 1700000000002 aliceToken ''1700000000000'' tea) world1 = ?s1"
    using addTransaction_run [OF h1 h2 h3 h4 clock2]
    by (simp add: t; simp add: ann_def)
  have g1: "sessionUser ?P ?s1 aliceToken = Some ''Alice''"
    using h1 by simp
  have g2: "customers (db ?s1) ''Alice'' = Some [ann\<lparr>transactions := [tea2, rice]\<rparr>]"
    by simp
  have g3: "findIndex (\<lambda>x. cid x = ''1700000000000'') [ann\<lparr>transactions := [tea2, rice]\<rparr>] = Some 0"
    by (simp add: ann_def)
  have g4: "toggleMap ''1700000000002''
              (transactions ([ann\<lparr>transactions := [tea2, rice]\<rparr>] ! 0)) None
            = ([tea2\<lparr>isPaid := True\<rparr>, rice], Some (tea2\<lparr>isPaid := True\<rparr>))"
    by (simp add: tea2_def rice_def Let_def)
  let ?s2 = "persistCustomers ''Alice'' (setCustomers ''Alice'' (Some [?X]) ?s1)"
  have s2: "step ?P (ToggleTransactionPaid aliceToken ''1700000000000'' ''1700000000002'') ?s1 = ?s2"
    using toggle_run [OF g1 g2 g3 g4] by simp
  have r: "run ?P nextCalls world1 = ?s2"
    by (simp only: nextCalls_def run.simps s1 s2)
  have c3: "customers (db (run ?P nextCalls world1)) ''Alice'' = Some [?X]"
    by (simp only: r) simp
  from c2 c3 have d2: "distinct (map tid (transactions ?X))"
    by fastforce
  note c4 = a [THEN conjunct2, THEN conjunct2, THEN conjunct2, rule_format,
      OF conjI [OF h1 conjI [OF h2 conjI [OF h3 conjI [OF h4 h5]]]]]
  show ?thesis
    by (rule conjI [OF h0 conjI [OF w conjI [OF h2 conjI [OF d1 conjI [OF h6
        conjI [OF c3 conjI [OF d2 conjI [OF h1 conjI [OF h3 conjI [OF h4
        conjI [OF h5 c4]]]]]]]]]]])
qed

text \<open>
  The claim as stated fails when two \<open>addTransaction\<close> calls read the same clock value.
  \<open>world1\<close> is the state the operations produce from the empty store by \<open>history\<close>; its
  only customer has unique ids. After two more \<open>addTransaction\<close> calls for that customer
  that both read the clock value 1700000000002, her sequence holds two transactions with
  the id \<^verbatim>\<open>1700000000002\<close>.
\<close>

theorem duplicate_ids_counterexample:
  "run testPlatform history emptyWorld = world1
   \<and> customers (db world1) ''Alice'' = Some [ann]
   \<and> distinct (map tid (transactions ann))
   \<and> customers (db (run testPlatform (history @ sameMillisecond) emptyWorld)) ''Alice''
       = Some [ann\<lparr>transactions := [tea2, tea2, rice]\<rparr>]
   \<and> \<not> distinct (map tid (transactions (ann\<lparr>transactions := [tea2, tea2, rice]\<rparr>)))"
proof -
  let ?P = testPlatform
  let ?A = "AddTransaction 1700000000002 aliceToken ''1700000000000'' tea"
  from world1_history have w: "run ?P history emptyWorld = world1"
    by simp
  have h1: "sessionUser ?P world1 aliceToken = Some ''Alice''"
    by code_simp
  have h2: "customers (db world1) ''Alice'' = Some [ann]"
    by code_simp
  have h3: "findIndex (\<lambda>x. cid x = ''1700000000000'') [ann] = Some 0"
    by code_simp
  have h4: "toISOString ?P (txDate tea @ ''T00:00:00'') = Some ''2024-01-06T00:00:00.000Z''"
    by code_simp
  have t: "\<lparr> tid = ''1700000000002'', productName = txProductName tea, quantity = txQuantity tea,
             amount = txPrice tea, isPaid = False, date = ''2024-01-06T00:00:00.000Z'' \<rparr> = tea2"
    by (simp add: tea_def tea2_def)
  let ?s1 = "persistCustomers ''Alice''
               (setCustomers ''Alice'' (Some [ann\<lparr>transactions := [tea2, rice]\<rparr>]) world1)"
  have s1: "step ?P ?A world1 = ?s1"
    using addTransaction_run [OF h1 h2 h3 h4 clock2]
    by (simp add: t; simp add: ann_def)
  have g1: "sessionUser ?P ?s1 aliceToken = Some ''Alice''"
    using h1 by simp
  have g2: "customers (db ?s1) ''Alice'' = Some [ann\<lparr>transactions := [tea2, rice]\<rparr>]"
    by simp
  have g3: "findIndex (\<lambda>x. cid x = ''1700000000000'') [ann\<lparr>transactions := [tea2, rice]\<rparr>] = Some 0"
    by (simp add: ann_def)
  let ?s2 = "persistCustomers ''Alice''
               (setCustomers ''Alice'' (Some [ann\<lparr>transactions := [tea2, tea2, rice]\<rparr>]) ?s1)"
  have s2: "step ?P ?A ?s1 = ?s2"
    using addTransaction_run [OF g1 g2 g3 h4 clock2]
    by (simp add: t; simp add: ann_def)
  have r: "run ?P (history @ sameMillisecond) emptyWorld = ?s2"
    by (simp only: run_append w sameMillisecond_def run.simps s1 s2)
  have c3: "distinct (map tid (transactions ann))"
    by (simp add: ann_def)
  have c4: "customers (db (run ?P (history @ sameMillisecond) emptyWorld)) ''Alice''
       = Some [ann\<lparr>transactions := [tea2, tea2, rice]\<rparr>]"
    by (simp only: r) simp
  have c5: "\<not> distinct (map tid (transactions (ann\<lparr>transactions := [tea2, tea2, rice]\<rparr>)))"
    by simp
  show ?thesis
    by (rule conjI [OF w conjI [OF h2 conjI [OF c3 conjI [OF c4 c5]]]])
qed

section \<open>C10: Renaming to one's own name\<close>

text \<open>
  Claim C10. For a logged-in user, \<open>updateUsername\<close> throws \<open>This username is already
  taken.\<close> and leaves the state unchanged whenever the new name matches a stored name
  case-insensitively; the caller's own name is a stored name, so a new name that differs
  from it only in letter case, or not at all, is rejected. The profile form never makes
  that call: for a logged-in form whose trimmed input matches the current user
  case-insensitively, \<open>handleUpdateUsername\<close> reports success, closes the editor and
  changes neither the session nor the store.
\<close>

theorem updateUsername_rejects_own_name:
  "(sessionUser E s token = Some old \<longrightarrow>
      (\<forall>new. (\<exists>u\<in>set (users (db s)). toLowerCase E (username u) = toLowerCase E new)
         \<longrightarrow> updateUsername E token new s = (Inl UsernameTaken_update, s))
    \<and> (\<forall>new. toLowerCase E new = toLowerCase E old
         \<longrightarrow> updateUsername E token new s = (Inl UsernameTaken_update, s))
    \<and> updateUsername E token old s = (Inl UsernameTaken_update, s))
   \<and> (\<forall>tok cu new. authToken a = Some tok \<and> tok \<noteq> [] \<and> currentUser a = Some cu
          \<and> toLowerCase E (trim E new) = toLowerCase E cu
        \<longrightarrow> handleUpdateUsername E new (a, s) = ((True, None), a\<lparr>isEditingProfile := False\<rparr>, s))"
proof -
  have taken: "updateUsername E token new s = (Inl UsernameTaken_update, s)"
    if "sessionUser E s token = Some old"
      and "\<exists>u\<in>set (users (db s)). toLowerCase E (username u) = toLowerCase E new" for new
    using that by (simp add: updateUsername_def list_ex_iff)
  have own: "updateUsername E token new s = (Inl UsernameTaken_update, s)"
    if l: "sessionUser E s token = Some old" and n: "toLowerCase E new = toLowerCase E old" for new
  proof -
    from l obtain u where "u \<in> set (users (db s))" "username u = old"
      by (auto simp: sessionUser_Some)
    with n have "\<exists>u\<in>set (users (db s)). toLowerCase E (username u) = toLowerCase E new"
      by auto
    with l show ?thesis
      by (rule taken)
  qed
  have ui: "handleUpdateUsername E new (a, s) = ((True, None), a\<lparr>isEditingProfile := False\<rparr>, s)"
    if "authToken a = Some tok \<and> tok \<noteq> [] \<and> currentUser a = Some cu
          \<and> toLowerCase E (trim E new) = toLowerCase E cu" for tok cu new
    using that by (simp add: handleUpdateUsername_def Let_def)
  from taken own ui show ?thesis
    by (intro conjI impI allI) simp_all
qed

theorem updateUsername_rejects_own_name_witness:
  "sessionUser testPlatform world1 aliceToken = Some ''Alice''
   \<and> toLowerCase testPlatform ''aLiCe'' = toLowerCase testPlatform ''Alice''
   \<and> updateUsername testPlatform aliceToken ''aLiCe'' world1 = (Inl UsernameTaken_update, world1)
   \<and> updateUsername testPlatform aliceToken ''Alice'' world1 = (Inl UsernameTaken_update, world1)
   \<and> authToken app1 = Some aliceToken \<and> aliceToken \<noteq> [] \<and> currentUser app1 = Some ''Alice''
   \<and> toLowerCase testPlatform (trim testPlatform '' alice '') = toLowerCase testPlatform ''Alice''
   \<and> handleUpdateUsername testPlatform '' alice '' (app1, world1)
       = ((True, None), app1\<lparr>isEditingProfile := False\<rparr>, world1)"
proof -
  note a = updateUsername_rejects_own_name [of testPlatform world1 aliceToken "''Alice''" app1]
  have h1: "sessionUser testPlatform world1 aliceToken = Some ''Alice''"
    by code_simp
  have h2: "toLowerCase testPlatform ''aLiCe'' = toLowerCase testPlatform ''Alice''"
    by code_simp
  have h3: "authToken app1 = Some aliceToken" "aliceToken \<noteq> []" "currentUser app1 = Some ''Alice''"
    by (simp_all add: app1_def aliceToken_def)
  have h4: "toLowerCase testPlatform (trim testPlatform '' alice '') = toLowerCase testPlatform ''Alice''"
    by code_simp
  from a h1 h2
  have c1: "updateUsername testPlatform aliceToken ''aLiCe'' world1 = (Inl UsernameTaken_update, world1)"
    by blast
  from a h1
  have c2: "updateUsername testPlatform aliceToken ''Alice'' world1 = (Inl UsernameTaken_update, world1)"
    by blast
  note a [THEN conjunct2, rule_format, OF conjI [OF h3(1) conjI [OF h3(2) conjI [OF h3(3) h4]]]]
  with h1 h2 h3 h4 c1 c2 show ?thesis
    by (intro conjI)
qed

end
